theory Spec2Isabelle
  imports Main
begin

section \<open>Text and regular expressions\<close>

text \<open>
  A JavaScript string is modelled as a \<^typ>\<open>string\<close> whose characters are code units
  below 256. The classes below are the ones the logger's patterns use: \<open>\s\<close>, \<open>\S\<close>,
  \<open>\d\<close>, \<open>\w\<close>, the dot (everything but a line terminator) and the bracket classes.
\<close>

definition isSpace :: "char \<Rightarrow> bool" where
  "isSpace c = (c \<in> set [CHR 0x09, CHR 0x0A, CHR 0x0B, CHR 0x0C, CHR 0x0D, CHR 0x20, CHR 0xA0])"

definition nonSpace :: "char \<Rightarrow> bool" where
  "nonSpace c = (\<not> isSpace c)"

definition isDigit :: "char \<Rightarrow> bool" where
  "isDigit c = (c \<in> set ''0123456789'')"

definition isAlpha :: "char \<Rightarrow> bool" where
  "isAlpha c = (c \<in> set ''abcdefghijklmnopqrstuvwxyzABCDEFGHIJKLMNOPQRSTUVWXYZ'')"

definition isAlnum :: "char \<Rightarrow> bool" where
  "isAlnum c = (isAlpha c \<or> isDigit c)"

definition isWord :: "char \<Rightarrow> bool" where
  "isWord c = (isAlnum c \<or> c = CHR ''_'')"

definition anyChar :: "char \<Rightarrow> bool" where
  "anyChar c = (c \<notin> set [CHR 0x0A, CHR 0x0D])"

definition notRBracket :: "char \<Rightarrow> bool" where
  "notRBracket c = (c \<noteq> CHR '']'')"

text \<open>
  The patterns of the source, as data. \<open>Bol\<close> and \<open>Eol\<close> are \<open>^\<close> and \<open>$\<close> without the
  multiline flag, \<open>Lit\<close> a run of literal characters, \<open>Cls\<close> a character class,
  \<open>Opt\<close>, \<open>Star\<close> and \<open>Plus\<close> the greedy \<open>?\<close>, \<open>*\<close> and \<open>+\<close>, \<open>LazyPlus\<close> the
  reluctant \<open>+?\<close>, and \<open>Grp n\<close> the capturing group number \<open>n\<close>.
\<close>

datatype regex =
    Bol
  | Eol
  | Lit string
  | Cls "char \<Rightarrow> bool"
  | Cat regex regex
  | Opt regex
  | Star regex
  | Plus regex
  | LazyPlus regex
  | Grp nat regex

type_synonym captures = "nat \<Rightarrow> string option"

text \<open>A matcher state: the input still to be read and the groups captured so far.\<close>

type_synonym mstate = "string \<times> captures"

text \<open>
  Backtracking is a list of states in priority order: the head is the match the
  JavaScript engine would find first. A greedy repetition first tries one more round of
  its body, then stopping; a reluctant one the other way round. A round that consumes
  nothing is rejected, so the rounds are bounded by the length of the remaining input.
  No pattern of the source re-enters a group, so the reset of the groups of a repeated
  body is not modelled.
\<close>

primrec greedyIter :: "(mstate \<Rightarrow> mstate list) \<Rightarrow> nat \<Rightarrow> mstate \<Rightarrow> mstate list" where
  "greedyIter f 0 st = [st]"
| "greedyIter f (Suc n) st =
     concat (map (\<lambda>st'. if length (fst st') < length (fst st) then greedyIter f n st' else [])
                 (f st)) @ [st]"

primrec lazyIter :: "(mstate \<Rightarrow> mstate list) \<Rightarrow> nat \<Rightarrow> mstate \<Rightarrow> mstate list" where
  "lazyIter f 0 st = [st]"
| "lazyIter f (Suc n) st =
     st # concat (map (\<lambda>st'. if length (fst st') < length (fst st) then lazyIter f n st' else [])
                      (f st))"

primrec rmatch :: "regex \<Rightarrow> string \<Rightarrow> mstate \<Rightarrow> mstate list" where
  "rmatch Bol full st = (if length (fst st) = length full then [st] else [])"
| "rmatch Eol full st = (if fst st = [] then [st] else [])"
| "rmatch (Lit w) full st =
     (if take (length w) (fst st) = w then [(drop (length w) (fst st), snd st)] else [])"
| "rmatch (Cls p) full st =
     (case fst st of [] \<Rightarrow> [] | c # cs \<Rightarrow> if p c then [(cs, snd st)] else [])"
| "rmatch (Cat a b) full st = concat (map (rmatch b full) (rmatch a full st))"
| "rmatch (Opt a) full st =
     filter (\<lambda>st'. length (fst st') < length (fst st)) (rmatch a full st) @ [st]"
| "rmatch (Star a) full st = greedyIter (rmatch a full) (length (fst st)) st"
| "rmatch (Plus a) full st =
     concat (map (\<lambda>st'. greedyIter (rmatch a full) (length (fst st')) st') (rmatch a full st))"
| "rmatch (LazyPlus a) full st =
     concat (map (\<lambda>st'. lazyIter (rmatch a full) (length (fst st')) st') (rmatch a full st))"
| "rmatch (Grp n a) full st =
     map (\<lambda>st'. (fst st',
                 (snd st')(n := Some (take (length (fst st) - length (fst st')) (fst st)))))
         (rmatch a full st)"

definition catAll :: "regex list \<Rightarrow> regex" where
  "catAll rs = foldr Cat rs (Lit [])"

text \<open>
  \<open>text.match(re)\<close> for a pattern without the global flag: the first start index with a
  match, and there the first match in priority order. \<open>re.test(text)\<close> asks only whether
  there is one.
\<close>

fun matchFrom :: "regex \<Rightarrow> string \<Rightarrow> nat list \<Rightarrow> captures option" where
  "matchFrom re s [] = None"
| "matchFrom re s (i # is) =
     (case rmatch re s (drop i s, \<lambda>_. None) of
        [] \<Rightarrow> matchFrom re s is
      | st # _ \<Rightarrow> Some (snd st))"

definition strMatch :: "string \<Rightarrow> regex \<Rightarrow> captures option" where
  "strMatch s re = matchFrom re s [0..<Suc (length s)]"

definition reTest :: "regex \<Rightarrow> string \<Rightarrow> bool" where
  "reTest re s = (strMatch s re \<noteq> None)"


text \<open>\<open>includes\<close>, \<open>trim\<close> and the two whitespace splits of \<open>String.prototype\<close>.\<close>

fun strIncludes :: "string \<Rightarrow> string \<Rightarrow> bool" where
  "strIncludes [] pat = (pat = [])"
| "strIncludes (c # cs) pat = (take (length pat) (c # cs) = pat \<or> strIncludes cs pat)"

definition trim :: "string \<Rightarrow> string" where
  "trim s = rev (dropWhile isSpace (rev (dropWhile isSpace s)))"

text \<open>
  \<open>s.split(/\s+/)\<close> when \<open>keep\<close> is false and \<open>s.split(/(\s+)/)\<close> when it is true: the
  pieces between the maximal runs of whitespace, with the runs themselves in between in
  the second form. A string without whitespace, also the empty one, is its own only piece.
\<close>

function splitSpaces :: "bool \<Rightarrow> string \<Rightarrow> string list" where
  "splitSpaces keep s =
     (case dropWhile nonSpace s of
        [] \<Rightarrow> [s]
      | c # cs \<Rightarrow>
          takeWhile nonSpace s #
          (if keep then [takeWhile isSpace (c # cs)] else []) @
          splitSpaces keep (dropWhile isSpace cs))"
  by pat_completeness auto
termination
proof (relation "measure (\<lambda>(keep, s). length s)")
  show "wf (measure (\<lambda>(keep, s). length s))" by simp
next
  fix keep :: bool and s :: string and c :: char and cs :: string
  assume d: "dropWhile nonSpace s = c # cs"
  have "length (dropWhile isSpace cs) \<le> length cs"
    by (rule length_dropWhile_le)
  also have "length cs < length (dropWhile nonSpace s)"
    using d by simp
  also have "length (dropWhile nonSpace s) \<le> length s"
    by (rule length_dropWhile_le)
  finally show "((keep, dropWhile isSpace cs), (keep, s)) \<in> measure (\<lambda>(keep, s). length s)"
    by simp
qed

text \<open>The decimal text of a natural number, as \<open>String(n)\<close> writes an array's length.\<close>

fun decimal :: "nat \<Rightarrow> string" where
  "decimal n = (if n < 10 then [''0123456789'' ! n]
                else decimal (n div 10) @ [''0123456789'' ! (n mod 10)])"

section \<open>Logged values\<close>

text \<open>
  An argument of a logging call is a string, another primitive (a number, a boolean,
  \<open>null\<close>, \<open>undefined\<close>: the logger reads such a value only through \<open>String(v)\<close>, so the
  model keeps that text), or a reference to an object of the store. Objects are arrays
  and records with their keys in enumeration order; a store may hold cyclic structures.
\<close>

datatype jsval = Str string | Prim string | Ref nat

datatype jsobj = JArray "jsval list" | JObject "(string \<times> jsval) list"

type_synonym store = "(nat \<times> jsobj) list"

datatype error = TypeError

text \<open>
  \<open>String(v)\<close> for a primitive; the logger never takes the text of an object. A
  reference that the store does not hold reads as an empty record.
\<close>

fun toText :: "jsval \<Rightarrow> string" where
  "toText (Str s) = s"
| "toText (Prim t) = t"
| "toText (Ref a) = ''[object Object]''"

fun isObject :: "jsval \<Rightarrow> bool" where
  "isObject (Ref a) = True"
| "isObject v = False"

definition deref :: "store \<Rightarrow> nat \<Rightarrow> jsobj" where
  "deref h a = (case map_of h a of Some ob \<Rightarrow> ob | None \<Rightarrow> JObject [])"

fun isArray :: "store \<Rightarrow> jsval \<Rightarrow> bool" where
  "isArray h (Ref a) = (case deref h a of JArray vs \<Rightarrow> True | JObject kvs \<Rightarrow> False)"
| "isArray h v = False"

fun children :: "jsobj \<Rightarrow> jsval list" where
  "children (JArray vs) = vs"
| "children (JObject kvs) = map snd kvs"

text \<open>
  \<open>JSON.stringify\<close> keeps the stack of the objects it is inside and throws a TypeError
  when it meets one of them again. \<open>circular h stk v\<close> says that serializing \<open>v\<close> inside
  the objects \<open>stk\<close> throws. The text of a successful serialization is not modelled.
\<close>

function circular :: "store \<Rightarrow> nat list \<Rightarrow> jsval \<Rightarrow> bool" where
  "circular h stk (Str s) = False"
| "circular h stk (Prim t) = False"
| "circular h stk (Ref a) =
     (if a \<in> set stk then True
      else list_ex (circular h (a # stk)) (children (deref h a)))"
  by pat_completeness auto
termination
proof (relation "measure (\<lambda>(h, stk, v). card (fst ` set h - set stk))")
  show "wf (measure (\<lambda>(h, stk, v). card (fst ` set h - set stk)))" by simp
next
  fix h :: store and stk :: "nat list" and a :: nat and x :: jsval
  assume fresh: "a \<notin> set stk" and child: "x \<in> set (children (deref h a))"
  have "a \<in> fst ` set h"
  proof (cases "map_of h a")
    case None
    with child show ?thesis by (simp add: deref_def)
  next
    case (Some ob)
    then show ?thesis by (metis map_of_SomeD fst_conv image_eqI)
  qed
  with fresh have "fst ` set h - set (a # stk) \<subset> fst ` set h - set stk"
    by auto
  then have "card (fst ` set h - set (a # stk)) < card (fst ` set h - set stk)"
    by (intro psubset_card_mono) auto
  then show "((h, a # stk, x), (h, stk, Ref a))
      \<in> measure (\<lambda>(h, stk, v). card (fst ` set h - set stk))"
    by simp
qed

definition jsonStringify :: "store \<Rightarrow> jsval \<Rightarrow> error + jsval" where
  "jsonStringify h v = (if circular h [] v then Inl TypeError else Inr v)"


section \<open>The entry classifier: \<open>formatLogText\<close>\<close>

text \<open>
  \<open>formatLogText\<close> appends DOM nodes to the entry's content element. The model returns the
  nodes it appends: a \<open>span\<close> with its colour, whether it is bold, and its text; a bare
  text node; or the \<open>details\<close> element of an object, with its summary line and the value
  whose serialization it shows.
\<close>

datatype node = Span string bool string | TextNode string | Details string jsval

definition bracketPattern :: regex where
  "bracketPattern = catAll [Bol, Lit ''['', Star (Cls anyChar), Lit '']'', Eol]"

definition propertyPattern :: regex where
  "propertyPattern = catAll [Bol, Plus (Cls isWord), Lit '':'', Eol]"

definition identifierPattern :: regex where
  "identifierPattern = catAll [Bol, Cls isAlpha, Star (Cls isAlnum), Eol]"

definition digitsPattern :: regex where
  "digitsPattern = catAll [Bol, Plus (Cls isDigit), Eol]"

definition numberPattern :: regex where
  "numberPattern = catAll [Bol, Opt (Lit ''-''), Plus (Cls isDigit),
     Opt (Grp 1 (Cat (Lit ''.'') (Plus (Cls isDigit)))), Eol]"

definition commonLogRegex :: regex where
  "commonLogRegex = catAll [Bol, Lit ''['', Grp 1 (Plus (Cls notRBracket)), Lit '']'',
     Plus (Cls isSpace), Grp 2 (Plus (Cls nonSpace)),
     Opt (Cat (Plus (Cls isSpace)) (Grp 3 (Plus (Cls nonSpace)))),
     Opt (Cat (Plus (Cls isSpace)) (Grp 4 (Plus (Cls anyChar)))), Eol]"

definition patchSelectMenuPattern :: regex where
  "patchSelectMenuPattern = catAll [Bol, Lit ''activePresetId:'', Star (Cls isSpace),
     Grp 1 (LazyPlus (Cls anyChar)), Lit '','', Star (Cls isSpace),
     Lit ''currentPatchName:'', Star (Cls isSpace), Grp 2 (Plus (Cls anyChar)), Eol]"

text \<open>
  The text of a group; a group that took no part in the match reads as the empty text,
  which the source cannot tell apart: it tests such groups for truthiness only.
\<close>

definition groupText :: "captures \<Rightarrow> nat \<Rightarrow> string" where
  "groupText m n = (case m n of Some t \<Rightarrow> t | None \<Rightarrow> [])"

text \<open>
  \<open>formatPrimitive\<close> is only ever called on the words of a split text, so on strings;
  its branches for the other types cannot be reached and are left out.
\<close>

definition formatPrimitive :: "string \<Rightarrow> node" where
  "formatPrimitive v =
     (if reTest bracketPattern v then Span ''#9B8FFF'' True v
      else if reTest propertyPattern v then Span ''#FC8A58'' False v
      else if reTest identifierPattern v then Span ''#FFC16C'' False v
      else Span ''#FC8A58'' False v)"

text \<open>The special case of the remainder \<open>activePresetId: ..., currentPatchName: ...\<close>.\<close>

definition patchValueSpan :: "string \<Rightarrow> node" where
  "patchValueSpan v = (if v = ''null'' then Span ''#82AAFF'' False v else Span ''#FFC16C'' False v)"

definition formatPatchMatch :: "captures \<Rightarrow> node list" where
  "formatPatchMatch m =
     [Span ''#FC8A58'' False ''activePresetId: '', patchValueSpan (groupText m 1),
      TextNode '', '',
      Span ''#FC8A58'' False ''currentPatchName: '', patchValueSpan (groupText m 2)]"

text \<open>
  The general \<open>property: value, property: value\<close> parser: a colon outside a value opens
  a value, a comma inside a value closes it, every other character is collected.
\<close>

datatype partType = Property | Separator | Value | Comma

type_synonym part = "partType \<times> string"

fun parseLoop :: "string \<Rightarrow> part list \<Rightarrow> string \<Rightarrow> bool \<Rightarrow> part list \<times> string \<times> bool" where
  "parseLoop [] parts currentPart inValue = (parts, currentPart, inValue)"
| "parseLoop (c # cs) parts currentPart inValue =
     (if c = CHR '':'' \<and> \<not> inValue then
        parseLoop cs (parts @ [(Property, trim currentPart), (Separator, '': '')]) [] True
      else if c = CHR '','' \<and> inValue then
        parseLoop cs (parts @ [(Value, trim currentPart), (Comma, '', '')]) [] False
      else parseLoop cs parts (currentPart @ [c]) inValue)"

definition parseParts :: "string \<Rightarrow> part list" where
  "parseParts restOfMessage =
     (case parseLoop restOfMessage [] [] False of
        (parts, currentPart, inValue) \<Rightarrow>
          if trim currentPart \<noteq> []
          then parts @ [(if inValue then Value else Property, trim currentPart)]
          else parts)"

fun renderPart :: "part \<Rightarrow> node" where
  "renderPart (Property, t) = Span ''#FC8A58'' False t"
| "renderPart (Value, t) =
     (if t = ''null'' \<or> t = ''undefined''
      then Span (if t = ''null'' then ''#82AAFF'' else ''#A9B7C6'') False t
      else if reTest numberPattern t then Span ''#5AAAFA'' False t
      else Span ''#FFC16C'' False t)"
| "renderPart (Separator, t) = TextNode t"
| "renderPart (Comma, t) = TextNode t"

text \<open>The words of a remainder without colons, a single space between them.\<close>

fun formatWords :: "nat \<Rightarrow> string list \<Rightarrow> node list" where
  "formatWords i [] = []"
| "formatWords i (word # ws) =
     (if 0 < i then [TextNode '' ''] else []) @
     [if reTest digitsPattern word then Span ''#5AAAFA'' False word else formatPrimitive word] @
     formatWords (Suc i) ws"

definition formatRest :: "string \<Rightarrow> node list" where
  "formatRest restOfMessage =
     (case strMatch restOfMessage patchSelectMenuPattern of
        Some patchMatch \<Rightarrow> formatPatchMatch patchMatch
      | None \<Rightarrow>
          if strIncludes restOfMessage '':'' then map renderPart (parseParts restOfMessage)
          else if reTest digitsPattern restOfMessage then [Span ''#5AAAFA'' False restOfMessage]
          else formatWords 0 (splitSpaces False restOfMessage))"

text \<open>
  A text that does not have the shape \<open>[module] action ...\<close> is coloured piece by piece.
  Whether a piece is a number is \<open>!isNaN(Number(part)) && String(Number(part)) === part\<close>
  in the source, a question about the platform's floating-point parsing and printing;
  the model takes its answer as the parameter \<open>numeric\<close>.
\<close>

definition formatPiece :: "(string \<Rightarrow> bool) \<Rightarrow> string \<Rightarrow> node" where
  "formatPiece numeric part =
     (if trim part = [] then TextNode part
      else if numeric part then Span ''#5AAAFA'' False part
      else formatPrimitive part)"

definition formatText :: "(string \<Rightarrow> bool) \<Rightarrow> string \<Rightarrow> node list" where
  "formatText numeric text =
     (case strMatch text commonLogRegex of
        Some m \<Rightarrow>
          [Span ''#9B8FFF'' True (''['' @ groupText m 1 @ ''] ''),
           Span ''#FFC16C'' False (groupText m 2 @ '' '')] @
          (if groupText m 3 \<noteq> [] then [Span ''#FC8A58'' False (groupText m 3 @ '' '')] else []) @
          (if groupText m 4 \<noteq> [] then formatRest (groupText m 4) else [])
      | None \<Rightarrow> map (formatPiece numeric) (splitSpaces True text))"

text \<open>
  The summary line of an object: its kind and up to three of its elements or fields,
  each cut to ten characters, the whole cut to a hundred. Nothing in the modelled values
  can throw while the summary is built, so the source's fallback to the bare kind name
  is never taken.
\<close>

definition previewValue :: "store \<Rightarrow> jsval \<Rightarrow> string" where
  "previewValue h val =
     (if isObject val then (if isArray h val then ''Array'' else ''Object'')
      else take 10 (toText val))"

fun joinComma :: "string list \<Rightarrow> string" where
  "joinComma [] = []"
| "joinComma [x] = x"
| "joinComma (x # y # zs) = x @ '', '' @ joinComma (y # zs)"

fun rawPreview :: "store \<Rightarrow> jsobj \<Rightarrow> string" where
  "rawPreview h (JArray vs) =
     ''Array('' @ decimal (length vs) @ '') ['' @
     joinComma (map (previewValue h) (take 3 vs)) @
     (if 3 < length vs then '', ...'' else []) @ '']''"
| "rawPreview h (JObject kvs) =
     ''{'' @
     joinComma (map (\<lambda>(key, val). key @ '': '' @ previewValue h val) (take 3 kvs)) @
     (if 3 < length kvs then '', ...'' else []) @ ''}''"

definition objectPreview :: "store \<Rightarrow> nat \<Rightarrow> string" where
  "objectPreview h a =
     (let preview = rawPreview h (deref h a)
      in if 100 < length preview then take 97 preview @ ''...'' else preview)"

text \<open>
  One argument of a logging call. For an object the summary is built under a
  \<open>try\<close>, but \<open>JSON.stringify(arg, null, 2)\<close> is evaluated outside of it, so its
  TypeError leaves \<open>formatLogText\<close>. A primitive is followed by a single space unless it
  is the last argument.
\<close>

fun formatLogText :: "(string \<Rightarrow> bool) \<Rightarrow> store \<Rightarrow> jsval \<Rightarrow> nat \<Rightarrow> nat \<Rightarrow> error + node list" where
  "formatLogText numeric h (Ref a) index argsLength =
     (case jsonStringify h (Ref a) of
        Inl e \<Rightarrow> Inl e
      | Inr json \<Rightarrow> Inr [Details (objectPreview h a) json])"
| "formatLogText numeric h arg index argsLength =
     Inr (formatText numeric (toText arg) @
          (if Suc index < argsLength then [TextNode '' ''] else []))"


section \<open>The throttle and pause controller\<close>

text \<open>
  \<open>throttleConfigRef.current\<close>: the mode is \<open>Normal\<close> when neither flag is set,
  \<open>Throttled(delay)\<close> when \<open>throttled\<close> is, \<open>Paused\<close> when \<open>paused\<close> is. \<open>previousState\<close> is
  the optional field \<open>_previousState\<close>, the snapshot an automatic pause takes.
\<close>

record PreviousState =
  prevThrottled :: bool
  prevDelay :: int

record ThrottleConfig =
  throttled :: bool
  paused :: bool
  delay :: int
  previousState :: "PreviousState option"

datatype level = Log | Info | Warn | Error

datatype consoleMethod = Level level | Clear

text \<open>
  A function bound to a console method: the browser's own, the wrapper the early-logs
  module installs when it is loaded (it records the call and forwards it to the browser's
  own), or the logger's decorator around one of its sinks, which calls the sink and
  then the function that was saved in \<open>_console\<close> when the logger attached.
\<close>

datatype consoleFn =
    Native consoleMethod
  | EarlyCapture level
  | Decorated consoleMethod consoleFn

record channels =
  logFn :: consoleFn
  clearFn :: consoleFn
  infoFn :: consoleFn
  warnFn :: consoleFn
  errorFn :: consoleFn

fun chan :: "consoleMethod \<Rightarrow> channels \<Rightarrow> consoleFn" where
  "chan (Level Log) c = logFn c"
| "chan (Level Info) c = infoFn c"
| "chan (Level Warn) c = warnFn c"
| "chan (Level Error) c = errorFn c"
| "chan Clear c = clearFn c"

text \<open>\<open>window.screenLog\<close>: its five methods and the \<open>_console\<close> its \<open>destroy\<close> restores.\<close>

record screenLogApi =
  methods :: channels
  savedConsole :: channels

record earlyLog =
  logType :: level
  logArgs :: "jsval list"
  timestamp :: int

text \<open>
  A rendered entry of the panel: the colour of its channel, the border colour of the log
  type computed from it, and the classified content. Margins, the striped background
  and the clock text of the header are presentation and left out.
\<close>

record entry =
  entryColor :: string
  entryBorder :: string
  entryContent :: "node list"

text \<open>The callbacks handed to \<open>setTimeout\<close> without keeping the handle.\<close>

datatype task = StatusMessage string | FilterLogs | ScrollToEnd

text \<open>
  The state the logger component and the early-logs module keep between calls: the refs
  of the component, the panel (\<open>logElement\<close> is \<open>None\<close> when \<open>logElementRef\<close> is null and
  the panel is not in the document, otherwise the entries of its content element),
  the console bindings, \<open>window.screenLog\<close>, the early buffer, the pending timeouts with
  their delays, what reached the browser's own console, and the object store.
\<close>

record logger =
  throttleConfig :: ThrottleConfig
  lastLogTime :: int
  searchQuery :: string
  throttleTimeout :: "nat option"
  pendingLogs :: "(string \<times> jsval list) list"
  testSignalInterval :: "int option"
  isInitialized :: bool
  logElement :: "entry list option"
  console :: channels
  screenLog :: "screenLogApi option"
  earlyLogs :: "earlyLog list"
  timeouts :: "(int \<times> task) list"
  nativeConsole :: "(consoleMethod \<times> jsval list) list"
  objects :: store

record props =
  enableTesting :: bool
  initiallyVisible :: bool

definition stopContinuousTestSignals :: "logger \<Rightarrow> logger" where
  "stopContinuousTestSignals s = s\<lparr>testSignalInterval := None\<rparr>"

definition startContinuousTestSignals :: "logger \<Rightarrow> logger" where
  "startContinuousTestSignals s =
     s\<lparr>testSignalInterval :=
         Some (if throttled (throttleConfig s) then delay (throttleConfig s) else 10)\<rparr>"

text \<open>
  The manual toggle. The five status messages start with a pictograph in the source,
  which the model's texts leave out. \<open>now\<close> is the reading of \<open>Date.now()\<close>.
\<close>

definition nextThrottle :: "ThrottleConfig \<Rightarrow> bool \<times> bool \<times> int \<times> string" where
  "nextThrottle current =
     (if \<not> throttled current \<and> \<not> paused current then
        (True, False, 250, ''THROTTLING ENABLED: 250ms'')
      else if throttled current \<and> delay current = 250 then
        (True, False, 500, ''THROTTLING SET TO: 500ms'')
      else if throttled current \<and> delay current = 500 then
        (True, False, 1000, ''THROTTLING SET TO: 1000ms'')
      else if throttled current \<and> delay current = 1000 then
        (False, True, 1000, ''LOGGING PAUSED - No new logs will be shown'')
      else
        (False, False, 250, ''THROTTLING DISABLED - Normal logging resumed''))"

definition toggleThrottling :: "int \<Rightarrow> logger \<Rightarrow> logger" where
  "toggleThrottling now s =
     (let s0 = stopContinuousTestSignals (s\<lparr>throttleTimeout := None\<rparr>);
          current = throttleConfig s0
      in case nextThrottle current of
           (newThrottled, newPaused, newDelay, message) \<Rightarrow>
             s0\<lparr>lastLogTime :=
                   (if \<not> throttled current \<and> \<not> paused current then now else lastLogTime s0),
                 throttleConfig :=
                   \<lparr>throttled = newThrottled, paused = newPaused, delay = newDelay,
                    previousState = None\<rparr>,
                 pendingLogs := [],
                 timeouts := timeouts s0 @ [(50, StatusMessage message)]\<rparr>)"

text \<open>
  The search box. \<open>searchQuery\<close> is the query of the last render, which the callback
  closes over; the model takes the component to have rendered between two calls.
\<close>

definition handleSearchChange :: "string \<Rightarrow> logger \<Rightarrow> logger" where
  "handleSearchChange query s =
     (let wasPreviouslySearching = (searchQuery s \<noteq> []);
          isNowSearching = (query \<noteq> []);
          s1 = s\<lparr>searchQuery := query\<rparr>;
          cfg = throttleConfig s1;
          s2 =
            (if \<not> wasPreviouslySearching \<and> isNowSearching then
               (if \<not> paused cfg then
                  s1\<lparr>throttleConfig :=
                       cfg\<lparr>previousState :=
                             Some \<lparr>prevThrottled = throttled cfg, prevDelay = delay cfg\<rparr>,
                           paused := True, throttled := False\<rparr>\<rparr>
                else s1)
             else if wasPreviouslySearching \<and> \<not> isNowSearching then
               (case previousState cfg of
                  Some prev \<Rightarrow>
                    if paused cfg then
                      s1\<lparr>throttleConfig :=
                           \<lparr>throttled = prevThrottled prev, paused = False,
                            delay = prevDelay prev, previousState = None\<rparr>\<rparr>
                    else s1
                | None \<Rightarrow> s1)
             else s1)
      in s2\<lparr>timeouts := timeouts s2 @ [(0, FilterLogs)]\<rparr>)"

section \<open>The sink\<close>

definition logColor :: string where "logColor = ''#d4d4d4''"
definition infoColor :: string where "infoColor = ''#4dabf7''"
definition warnColor :: string where "warnColor = ''#ffa94d''"
definition errorColor :: string where "errorColor = ''#ff6b6b''"

fun levelColor :: "level \<Rightarrow> string" where
  "levelColor Log = logColor"
| "levelColor Info = infoColor"
| "levelColor Warn = warnColor"
| "levelColor Error = errorColor"

definition logTypeOf :: "string \<Rightarrow> level" where
  "logTypeOf color =
     (if color = errorColor then Error
      else if color = warnColor then Warn
      else if color = infoColor then Info
      else Log)"

fun borderColor :: "level \<Rightarrow> string" where
  "borderColor Error = ''#FC8181''"
| "borderColor Warn = ''#F6AD55''"
| "borderColor Info = ''#63B3ED''"
| "borderColor Log = ''#A0AEC0''"

text \<open>\<open>args.forEach((arg, index) => formatLogText(content, arg, index, args.length))\<close>.\<close>

fun formatArgs ::
  "(string \<Rightarrow> bool) \<Rightarrow> store \<Rightarrow> jsval list \<Rightarrow> nat \<Rightarrow> nat \<Rightarrow> error + node list" where
  "formatArgs numeric h [] index argsLength = Inr []"
| "formatArgs numeric h (arg # rest) index argsLength =
     (case formatLogText numeric h arg index argsLength of
        Inl e \<Rightarrow> Inl e
      | Inr nodes \<Rightarrow>
          (case formatArgs numeric h rest (Suc index) argsLength of
             Inl e \<Rightarrow> Inl e
           | Inr others \<Rightarrow> Inr (nodes @ others)))"

text \<open>Building the entry, appending it to the panel and asking for the scroll.\<close>

definition buildEntry ::
  "(string \<Rightarrow> bool) \<Rightarrow> store \<Rightarrow> string \<Rightarrow> jsval list \<Rightarrow> error + entry" where
  "buildEntry numeric h color args =
     (case formatArgs numeric h args 0 (length args) of
        Inl e \<Rightarrow> Inl e
      | Inr nodes \<Rightarrow>
          Inr \<lparr>entryColor = color,
               entryBorder = borderColor (logTypeOf color),
               entryContent = nodes\<rparr>)"

definition writeEntry ::
  "(string \<Rightarrow> bool) \<Rightarrow> string \<Rightarrow> jsval list \<Rightarrow> entry list \<Rightarrow> logger \<Rightarrow> error + logger" where
  "writeEntry numeric color args shown s =
     (case buildEntry numeric (objects s) color args of
        Inl e \<Rightarrow> Inl e
      | Inr el \<Rightarrow>
          Inr (s\<lparr>logElement := Some (shown @ [el]),
                  timeouts := timeouts s @ [(0, ScrollToEnd)]\<rparr>))"

text \<open>
  The function \<open>genericLogger(color)\<close> returns: nothing happens without a panel or when
  paused; when throttled the entry is written only if \<open>delay\<close> has passed since the
  last written one; otherwise it is written.
\<close>

definition genericLogger ::
  "(string \<Rightarrow> bool) \<Rightarrow> string \<Rightarrow> jsval list \<Rightarrow> int \<Rightarrow> logger \<Rightarrow> error + logger" where
  "genericLogger numeric color args now s =
     (case logElement s of
        None \<Rightarrow> Inr s
      | Some shown \<Rightarrow>
          if paused (throttleConfig s) then Inr s
          else if throttled (throttleConfig s) then
            (if delay (throttleConfig s) \<le> now - lastLogTime s then
               (case writeEntry numeric color args shown s of
                  Inl e \<Rightarrow> Inl e
                | Inr s' \<Rightarrow> Inr (s'\<lparr>lastLogTime := now\<rparr>))
             else Inr s)
          else writeEntry numeric color args shown s)"

definition clearLog :: "logger \<Rightarrow> logger" where
  "clearLog s =
     s\<lparr>logElement := (case logElement s of None \<Rightarrow> None | Some shown \<Rightarrow> Some []),
       pendingLogs := [],
       throttleTimeout := None\<rparr>"

fun sinkFn ::
  "(string \<Rightarrow> bool) \<Rightarrow> consoleMethod \<Rightarrow> jsval list \<Rightarrow> int \<Rightarrow> logger \<Rightarrow> error + logger" where
  "sinkFn numeric (Level l) args now s = genericLogger numeric (levelColor l) args now s"
| "sinkFn numeric Clear args now s = Inr (clearLog s)"

text \<open>
  Calling a function bound to a console method. The decorator is
  \<open>fn.apply(null, args); _console[fnName].apply(console, args)\<close>: an exception of the sink
  leaves the call before the saved function is reached.
\<close>

primrec invoke ::
  "(string \<Rightarrow> bool) \<Rightarrow> consoleFn \<Rightarrow> jsval list \<Rightarrow> int \<Rightarrow> logger \<Rightarrow> error + logger" where
  "invoke numeric (Native m) args now s =
     Inr (s\<lparr>nativeConsole := nativeConsole s @ [(m, args)]\<rparr>)"
| "invoke numeric (EarlyCapture l) args now s =
     Inr (s\<lparr>earlyLogs := earlyLogs s @ [\<lparr>logType = l, logArgs = args, timestamp = now\<rparr>],
             nativeConsole := nativeConsole s @ [(Level l, args)]\<rparr>)"
| "invoke numeric (Decorated m saved) args now s =
     (case sinkFn numeric m args now s of
        Inl e \<Rightarrow> Inl e
      | Inr s' \<Rightarrow> invoke numeric saved args now s')"

definition consoleCall ::
  "(string \<Rightarrow> bool) \<Rightarrow> consoleMethod \<Rightarrow> jsval list \<Rightarrow> int \<Rightarrow> logger \<Rightarrow> error + logger" where
  "consoleCall numeric m args now s = invoke numeric (chan m (console s)) args now s"

text \<open>\<open>window.screenLog[m](...args)\<close>; without \<open>window.screenLog\<close> the read throws.\<close>

definition screenLogCall ::
  "(string \<Rightarrow> bool) \<Rightarrow> consoleMethod \<Rightarrow> jsval list \<Rightarrow> int \<Rightarrow> logger \<Rightarrow> error + logger" where
  "screenLogCall numeric m args now s =
     (case screenLog s of
        None \<Rightarrow> Inl TypeError
      | Some api \<Rightarrow> invoke numeric (chan m (methods api)) args now s)"


section \<open>The early buffer and its replay\<close>

text \<open>
  Loading the early-logs module wraps \<open>console.log\<close>, \<open>warn\<close>, \<open>error\<close> and \<open>info\<close>;
  the component's refs have their initial values and nothing is attached.
\<close>

definition earlyConsole :: channels where
  "earlyConsole =
     \<lparr>logFn = EarlyCapture Log, clearFn = Native Clear, infoFn = EarlyCapture Info,
      warnFn = EarlyCapture Warn, errorFn = EarlyCapture Error\<rparr>"

definition moduleLoaded :: "store \<Rightarrow> logger" where
  "moduleLoaded h =
     \<lparr>throttleConfig = \<lparr>throttled = False, paused = False, delay = 250, previousState = None\<rparr>,
      lastLogTime = 0,
      searchQuery = [],
      throttleTimeout = None,
      pendingLogs = [],
      testSignalInterval = None,
      isInitialized = False,
      logElement = None,
      console = earlyConsole,
      screenLog = None,
      earlyLogs = [],
      timeouts = [],
      nativeConsole = [],
      objects = h\<rparr>"

text \<open>
  A buffered call is a separator line when its first argument is a string that contains
  \<open>EARLY LOGS\<close>. \<open>slice(-maxEntries)\<close> keeps the last \<open>maxEntries\<close> elements, and all of
  them when \<open>maxEntries\<close> is zero.
\<close>

fun isSeparator :: "earlyLog \<Rightarrow> bool" where
  "isSeparator e =
     (case logArgs e of
        Str t # rest \<Rightarrow> strIncludes t ''EARLY LOGS'' \<or> strIncludes t ''END EARLY LOGS''
      | _ \<Rightarrow> False)"

definition sliceLast :: "nat \<Rightarrow> 'a list \<Rightarrow> 'a list" where
  "sliceLast n xs = (if n = 0 then xs else drop (length xs - n) xs)"

definition logsToReplay :: "nat \<Rightarrow> earlyLog list \<Rightarrow> earlyLog list" where
  "logsToReplay maxEntries buffer =
     filter (\<lambda>e. \<not> isSeparator e) (sliceLast maxEntries buffer)"

definition startSeparator :: string where
  "startSeparator = ''---------- EARLY LOGS ----------''"

definition endSeparator :: string where
  "endSeparator = ''---------- END EARLY LOGS ----------''"

fun replayEntries ::
  "(string \<Rightarrow> bool) \<Rightarrow> earlyLog list \<Rightarrow> int \<Rightarrow> logger \<Rightarrow> error + logger" where
  "replayEntries numeric [] now s = Inr s"
| "replayEntries numeric (e # es) now s =
     (case screenLogCall numeric (Level (logType e)) (logArgs e) now s of
        Inl err \<Rightarrow> Inl err
      | Inr s' \<Rightarrow> replayEntries numeric es now s')"

text \<open>
  \<open>replayLogsToScreenLogger\<close>. The list to replay is taken after the opening separator
  has been logged. The run is synchronous and is given one reading of the clock.
\<close>

definition replayLogsToScreenLogger ::
  "(string \<Rightarrow> bool) \<Rightarrow> nat \<Rightarrow> int \<Rightarrow> logger \<Rightarrow> error + logger" where
  "replayLogsToScreenLogger numeric maxEntries now s =
     (if screenLog s = None \<or> earlyLogs s = [] then Inr s
      else
        case screenLogCall numeric (Level Log) [Str startSeparator] now s of
          Inl e \<Rightarrow> Inl e
        | Inr s1 \<Rightarrow>
            (case replayEntries numeric (logsToReplay maxEntries (earlyLogs s1)) now s1 of
               Inl e \<Rightarrow> Inl e
             | Inr s2 \<Rightarrow>
                 if screenLog s2 = None then Inr s2
                 else screenLogCall numeric (Level Log) [Str endSeparator] now s2))"

section \<open>Attaching and destroying\<close>

definition decorate :: "channels \<Rightarrow> channels" where
  "decorate saved =
     \<lparr>logFn = Decorated (Level Log) (logFn saved),
      clearFn = Decorated Clear (clearFn saved),
      infoFn = Decorated (Level Info) (infoFn saved),
      warnFn = Decorated (Level Warn) (warnFn saved),
      errorFn = Decorated (Level Error) (errorFn saved)\<rparr>"

text \<open>
  \<open>initScreenLog\<close>: an attached logger is left alone; otherwise a fresh panel replaces
  any old one, the console functions are saved and decorated, \<open>window.screenLog\<close> is
  published, the greeting goes straight to the log sink, the early buffer is replayed
  with the default cap, and the test signals are armed if asked for.
\<close>

definition greeting :: string where
  "greeting = ''Screen logger initialized.''"

definition initScreenLog ::
  "props \<Rightarrow> (string \<Rightarrow> bool) \<Rightarrow> int \<Rightarrow> logger \<Rightarrow> error + logger" where
  "initScreenLog P numeric now s =
     (if isInitialized s \<and> logElement s \<noteq> None then Inr s
      else
        let saved = console s;
            s1 = s\<lparr>logElement := Some [],
                   console := decorate saved,
                   screenLog := Some \<lparr>methods = decorate saved, savedConsole = saved\<rparr>,
                   isInitialized := True\<rparr>
        in case genericLogger numeric logColor [Str greeting] now s1 of
             Inl e \<Rightarrow> Inl e
           | Inr s2 \<Rightarrow>
               (case replayLogsToScreenLogger numeric 200 now s2 of
                  Inl e \<Rightarrow> Inl e
                | Inr s3 \<Rightarrow>
                    Inr (if enableTesting P \<and> initiallyVisible P
                         then startContinuousTestSignals s3 else s3)))"

text \<open>
  \<open>destroy\<close>, as the closure of one attach: it puts back the functions saved in
  \<open>_console\<close>, removes the panel, and clears \<open>throttleTimeoutRef\<close>. It leaves
  \<open>window.screenLog\<close> in place.
\<close>

definition destroy :: "channels \<Rightarrow> logger \<Rightarrow> logger" where
  "destroy saved s =
     s\<lparr>console := saved,
       logElement := None,
       isInitialized := False,
       throttleTimeout := None\<rparr>"

definition screenLogDestroy :: "logger \<Rightarrow> error + logger" where
  "screenLogDestroy s =
     (case screenLog s of
        None \<Rightarrow> Inl TypeError
      | Some api \<Rightarrow> Inr (destroy (savedConsole api) s))"

text \<open>
  Running a pending timeout. The status callback of the toggle logs its message through
  \<open>window.screenLog\<close> if there is one and re-arms the test signals if they are enabled;
  the other two callbacks only touch the display.
\<close>

fun runTask :: "props \<Rightarrow> (string \<Rightarrow> bool) \<Rightarrow> task \<Rightarrow> int \<Rightarrow> logger \<Rightarrow> error + logger" where
  "runTask P numeric (StatusMessage message) now s =
     (case (if screenLog s = None then Inr s
            else screenLogCall numeric (Level Log) [Str message] now s) of
        Inl e \<Rightarrow> Inl e
      | Inr s' \<Rightarrow> Inr (if enableTesting P then startContinuousTestSignals s' else s'))"
| "runTask P numeric FilterLogs now s = Inr s"
| "runTask P numeric ScrollToEnd now s = Inr s"


section \<open>Runs and observations\<close>

text \<open>One call after another; an exception ends the run.\<close>

fun andThen :: "error + 'a \<Rightarrow> ('a \<Rightarrow> error + 'b) \<Rightarrow> error + 'b" where
  "andThen (Inl e) f = Inl e"
| "andThen (Inr x) f = f x"

text \<open>The \<open>textContent\<close> of a node and of an entry's content, and the texts a panel shows.\<close>

fun nodeText :: "node \<Rightarrow> string" where
  "nodeText (Span c b t) = t"
| "nodeText (TextNode t) = t"
| "nodeText (Details summary v) = summary"

definition entryText :: "entry \<Rightarrow> string" where
  "entryText e = concat (map nodeText (entryContent e))"

definition shownTexts :: "logger \<Rightarrow> string list" where
  "shownTexts s = (case logElement s of None \<Rightarrow> [] | Some shown \<Rightarrow> map entryText shown)"

text \<open>
  An instance of the platform's number test for the examples: the decimal integers of at
  most fifteen digits in their canonical writing. The examples use it on texts none of
  whose pieces is a number in any other notation, where it is the platform's answer.
\<close>

definition integerText :: "string \<Rightarrow> bool" where
  "integerText part =
     (part = ''0'' \<or>
      (case (if take 1 part = ''-'' then drop 1 part else part) of
         [] \<Rightarrow> False
       | d # ds \<Rightarrow> d \<in> set ''123456789'' \<and> list_all isDigit ds \<and> length ds < 15))"

definition exampleProps :: props where
  "exampleProps = \<lparr>enableTesting = False, initiallyVisible = True\<rparr>"

text \<open>The props the component takes when none are given.\<close>

definition defaultProps :: props where
  "defaultProps = \<lparr>enableTesting = True, initiallyVisible = True\<rparr>"

text \<open>The colours of the entries a panel shows.\<close>

definition shownColors :: "logger \<Rightarrow> string list" where
  "shownColors s = (case logElement s of None \<Rightarrow> [] | Some shown \<Rightarrow> map entryColor shown)"


text \<open>Whether calling a function reaches a sink of the logger.\<close>

fun isDecorated :: "consoleFn \<Rightarrow> bool" where
  "isDecorated (Decorated m saved) = True"
| "isDecorated (Native m) = False"
| "isDecorated (EarlyCapture l) = False"

text \<open>The arguments of a call none of which makes \<open>JSON.stringify\<close> throw.\<close>

definition serializable :: "store \<Rightarrow> jsval list \<Rightarrow> bool" where
  "serializable h args = list_all (\<lambda>v. \<not> circular h [] v) args"

text \<open>What the early wrapper records for a call made at \<open>now\<close>.\<close>

definition capture :: "int \<Rightarrow> level \<times> jsval list \<Rightarrow> earlyLog" where
  "capture now call = \<lparr>logType = fst call, logArgs = snd call, timestamp = now\<rparr>"

definition callOf :: "earlyLog \<Rightarrow> level \<times> jsval list" where
  "callOf e = (logType e, logArgs e)"

text \<open>Example inputs: a store with an object that holds itself, and three early calls.\<close>

definition cyclicStore :: store where
  "cyclicStore = [(0, JObject [(''self'', Ref 0)])]"

definition threeCaptured :: logger where
  "threeCaptured =
     (moduleLoaded [])\<lparr>earlyLogs :=
        [\<lparr>logType = Info, logArgs = [Str ''one''], timestamp = 1\<rparr>,
         \<lparr>logType = Warn, logArgs = [Str ''two''], timestamp = 2\<rparr>,
         \<lparr>logType = Error, logArgs = [Str ''three''], timestamp = 3\<rparr>]\<rparr>"


text \<open>
  A logger attached over the early wrappers, with a panel, neither throttled nor paused;
  and the entry a call on a channel is rendered as.
\<close>

definition attachedNormal :: "logger \<Rightarrow> bool" where
  "attachedNormal s =
     (screenLog s = Some \<lparr>methods = decorate earlyConsole, savedConsole = earlyConsole\<rparr>
      \<and> logElement s \<noteq> None
      \<and> \<not> paused (throttleConfig s) \<and> \<not> throttled (throttleConfig s))"

definition entryFor :: "(string \<Rightarrow> bool) \<Rightarrow> store \<Rightarrow> level \<times> jsval list \<Rightarrow> error + entry" where
  "entryFor numeric h call = buildEntry numeric h (levelColor (fst call)) (snd call)"

definition nativeCall :: "level \<times> jsval list \<Rightarrow> consoleMethod \<times> jsval list" where
  "nativeCall call = (Level (fst call), snd call)"


text \<open>
  The earlier version of the component (\<open>src/components/dev-screen-logger.tsx\<close>) renders
  an argument inside \<open>genericLogger\<close> itself: an object becomes a \<open>details\<close> element
  titled \<open>Object data\<close> whose text is the serialization, or \<open>[Circular]\<close> when
  \<open>JSON.stringify\<close> throws; a primitive becomes its text and a space.
\<close>

datatype preText = Serialized jsval | Placeholder string

datatype plainNode = PlainText string | ObjectData preText

fun plainArgNode :: "store \<Rightarrow> jsval \<Rightarrow> plainNode" where
  "plainArgNode h (Ref a) =
     ObjectData (case jsonStringify h (Ref a) of
                   Inl e \<Rightarrow> Placeholder ''[Circular]''
                 | Inr json \<Rightarrow> Serialized json)"
| "plainArgNode h arg = PlainText (toText arg @ '' '')"

definition attachedExample :: logger where
  "attachedExample =
     (moduleLoaded [])\<lparr>logElement := Some [],
                       console := decorate earlyConsole,
                       screenLog := Some \<lparr>methods = decorate earlyConsole,
                                          savedConsole = earlyConsole\<rparr>,
                       isInitialized := True\<rparr>"

definition throttledExample :: logger where
  "throttledExample =
     (moduleLoaded [])\<lparr>logElement := Some [],
                       throttleConfig := \<lparr>throttled = True, paused = False, delay = 250,
                                          previousState = None\<rparr>,
                       lastLogTime := 1000\<rparr>"

definition autoPausedExample :: logger where
  "autoPausedExample =
     (moduleLoaded [])\<lparr>searchQuery := ''err'',
                       throttleConfig := \<lparr>throttled = False, paused = True, delay = 500,
                                          previousState = Some \<lparr>prevThrottled = True,
                                                                prevDelay = 500\<rparr>\<rparr>\<rparr>"

definition manuallyPausedExample :: logger where
  "manuallyPausedExample =
     (moduleLoaded [])\<lparr>throttleConfig := \<lparr>throttled = False, paused = True, delay = 1000,
                                          previousState = None\<rparr>\<rparr>"

section \<open>Properties of the matcher\<close>

text \<open>
  The bound on the rounds of a repetition cuts nothing off: with a bound of at least
  the length of the remaining input, one more round allowed gives the same matches.
\<close>

lemma greedyIter_enough:
  "length (fst st) \<le> n \<Longrightarrow> greedyIter f (Suc n) st = greedyIter f n st"
proof (induction n arbitrary: st)
  case 0
  then show ?case by simp
next
  case (Suc n)
  have "\<And>st'. length (fst st') < length (fst st) \<Longrightarrow>
          greedyIter f (Suc n) st' = greedyIter f n st'"
    using Suc.prems by (intro Suc.IH) simp
  then have "(\<lambda>st'. if length (fst st') < length (fst st) then greedyIter f (Suc n) st' else [])
           = (\<lambda>st'. if length (fst st') < length (fst st) then greedyIter f n st' else [])"
    by auto
  then show ?case by simp
qed

lemma lazyIter_enough:
  "length (fst st) \<le> n \<Longrightarrow> lazyIter f (Suc n) st = lazyIter f n st"
proof (induction n arbitrary: st)
  case 0
  then show ?case by simp
next
  case (Suc n)
  have "\<And>st'. length (fst st') < length (fst st) \<Longrightarrow>
          lazyIter f (Suc n) st' = lazyIter f n st'"
    using Suc.prems by (intro Suc.IH) simp
  then have "(\<lambda>st'. if length (fst st') < length (fst st) then lazyIter f (Suc n) st' else [])
           = (\<lambda>st'. if length (fst st') < length (fst st) then lazyIter f n st' else [])"
    by auto
  then show ?case by simp
qed

section \<open>Properties of the controller\<close>

text \<open>
  C2. From the Normal state the toggle runs through Throttled(250), Throttled(500),
  Throttled(1000) and Paused and is back at Normal after the fifth call, and every call
  schedules exactly one status message, the one of the state it has just entered. When
  the scheduled callback runs on a logger attached over the early wrappers, the message
  is logged once: one call with it reaches the console.
\<close>

theorem toggleThrottling_cycle:
  assumes "\<not> throttled (throttleConfig s)" and "\<not> paused (throttleConfig s)"
  shows "throttleConfig (toggleThrottling t1 s) =
           \<lparr>throttled = True, paused = False, delay = 250, previousState = None\<rparr>
       \<and> throttleConfig (toggleThrottling t2 (toggleThrottling t1 s)) =
           \<lparr>throttled = True, paused = False, delay = 500, previousState = None\<rparr>
       \<and> throttleConfig (toggleThrottling t3 (toggleThrottling t2 (toggleThrottling t1 s))) =
           \<lparr>throttled = True, paused = False, delay = 1000, previousState = None\<rparr>
       \<and> throttleConfig (toggleThrottling t4 (toggleThrottling t3 (toggleThrottling t2
            (toggleThrottling t1 s)))) =
           \<lparr>throttled = False, paused = True, delay = 1000, previousState = None\<rparr>
       \<and> throttleConfig (toggleThrottling t5 (toggleThrottling t4 (toggleThrottling t3
            (toggleThrottling t2 (toggleThrottling t1 s))))) =
           \<lparr>throttled = False, paused = False, delay = 250, previousState = None\<rparr>
       \<and> timeouts (toggleThrottling t1 s) =
           timeouts s @ [(50, StatusMessage ''THROTTLING ENABLED: 250ms'')]
       \<and> timeouts (toggleThrottling t5 (toggleThrottling t4 (toggleThrottling t3
            (toggleThrottling t2 (toggleThrottling t1 s))))) =
           timeouts s @
           [(50, StatusMessage ''THROTTLING ENABLED: 250ms''),
            (50, StatusMessage ''THROTTLING SET TO: 500ms''),
            (50, StatusMessage ''THROTTLING SET TO: 1000ms''),
            (50, StatusMessage ''LOGGING PAUSED - No new logs will be shown''),
            (50, StatusMessage ''THROTTLING DISABLED - Normal logging resumed'')]
       \<and> (screenLog s' = Some \<lparr>methods = decorate earlyConsole, savedConsole = earlyConsole\<rparr>
            \<longrightarrow> (\<exists>r. runTask P numeric (StatusMessage message) now s' = Inr r
                   \<and> nativeConsole r = nativeConsole s' @ [(Level Log, [Str message])]))"
proof -
  have emitted: "screenLog s' = Some \<lparr>methods = decorate earlyConsole, savedConsole = earlyConsole\<rparr>
      \<longrightarrow> (\<exists>r. runTask P numeric (StatusMessage message) now s' = Inr r
             \<and> nativeConsole r = nativeConsole s' @ [(Level Log, [Str message])])"
    by (auto simp: screenLogCall_def decorate_def earlyConsole_def genericLogger_def
        writeEntry_def buildEntry_def startContinuousTestSignals_def split: option.splits)
  from assms emitted show ?thesis
    by (simp add: toggleThrottling_def nextThrottle_def stopContinuousTestSignals_def Let_def)
qed

theorem toggleThrottling_cycle_witness:
  "\<not> throttled (throttleConfig (moduleLoaded []))
   \<and> \<not> paused (throttleConfig (moduleLoaded []))
   \<and> throttleConfig (toggleThrottling 5 (toggleThrottling 4 (toggleThrottling 3
        (toggleThrottling 2 (toggleThrottling 1 (moduleLoaded [])))))) =
       \<lparr>throttled = False, paused = False, delay = 250, previousState = None\<rparr>
   \<and> timeouts (toggleThrottling 1 (moduleLoaded [])) =
       [(50, StatusMessage ''THROTTLING ENABLED: 250ms'')]
   \<and> screenLog (toggleThrottling 1 attachedExample) =
       Some \<lparr>methods = decorate earlyConsole, savedConsole = earlyConsole\<rparr>
   \<and> (\<exists>r. runTask exampleProps integerText (StatusMessage ''THROTTLING ENABLED: 250ms'') 51
              (toggleThrottling 1 attachedExample) = Inr r
          \<and> nativeConsole r = [(Level Log, [Str ''THROTTLING ENABLED: 250ms''])])"
proof -
  have n: "\<not> throttled (throttleConfig (moduleLoaded []))"
    "\<not> paused (throttleConfig (moduleLoaded []))"
    "timeouts (moduleLoaded []) = []"
    by (simp_all add: moduleLoaded_def)
  have a: "screenLog (toggleThrottling 1 attachedExample) =
             Some \<lparr>methods = decorate earlyConsole, savedConsole = earlyConsole\<rparr>"
    "nativeConsole (toggleThrottling 1 attachedExample) = []"
    by (simp_all add: toggleThrottling_def nextThrottle_def stopContinuousTestSignals_def
        attachedExample_def moduleLoaded_def Let_def)
  from toggleThrottling_cycle [OF n(1) n(2), of 1 2 3 4 5 "toggleThrottling 1 attachedExample"
      exampleProps integerText "''THROTTLING ENABLED: 250ms''" 51] n a
  show ?thesis by simp
qed

text \<open>
  C4. When the query goes from empty to non-empty, a controller that is not paused
  stores its throttled flag and delay in the snapshot and becomes Paused; a controller
  that is already paused keeps its state, snapshot field included.
\<close>

theorem handleSearchChange_start:
  assumes "searchQuery s = []" and "query \<noteq> []"
  shows "throttleConfig (handleSearchChange query s) =
           (if paused (throttleConfig s) then throttleConfig s
            else \<lparr>throttled = False, paused = True, delay = delay (throttleConfig s),
                  previousState = Some \<lparr>prevThrottled = throttled (throttleConfig s),
                                        prevDelay = delay (throttleConfig s)\<rparr>\<rparr>)"
  using assms
  by (cases "throttleConfig s") (simp add: handleSearchChange_def Let_def)

theorem handleSearchChange_start_witness:
  "searchQuery (toggleThrottling 7 (moduleLoaded [])) = [] \<and> ''err'' \<noteq> []
   \<and> throttleConfig (handleSearchChange ''err'' (toggleThrottling 7 (moduleLoaded []))) =
       \<lparr>throttled = False, paused = True, delay = 250,
        previousState = Some \<lparr>prevThrottled = True, prevDelay = 250\<rparr>\<rparr>
   \<and> searchQuery manuallyPausedExample = []
   \<and> throttleConfig (handleSearchChange ''err'' manuallyPausedExample) =
       throttleConfig manuallyPausedExample"
proof -
  have a: "searchQuery (toggleThrottling 7 (moduleLoaded [])) = []"
    by (simp add: toggleThrottling_def nextThrottle_def stopContinuousTestSignals_def
        moduleLoaded_def Let_def)
  have b: "searchQuery manuallyPausedExample = []"
    by (simp add: manuallyPausedExample_def moduleLoaded_def)
  have q: "''err'' \<noteq> []" by simp
  have c: "throttleConfig (toggleThrottling 7 (moduleLoaded [])) =
             \<lparr>throttled = True, paused = False, delay = 250, previousState = None\<rparr>"
    by (simp add: toggleThrottling_def nextThrottle_def stopContinuousTestSignals_def
        moduleLoaded_def Let_def)
  have d: "paused (throttleConfig manuallyPausedExample)"
    by (simp add: manuallyPausedExample_def moduleLoaded_def)
  from handleSearchChange_start [OF a q] handleSearchChange_start [OF b q] a b c d
  show ?thesis by simp
qed

text \<open>
  C5. Ending a search without a snapshot leaves the throttle state as it is; ending it
  a second time changes nothing more; and ending the search of an automatic pause
  restores the snapshot and removes it, so that it is restored once.
\<close>

theorem handleSearchChange_end:
  "(previousState (throttleConfig s) = None \<longrightarrow>
      throttleConfig (handleSearchChange [] s) = throttleConfig s)
   \<and> throttleConfig (handleSearchChange [] (handleSearchChange [] s)) =
       throttleConfig (handleSearchChange [] s)
   \<and> (searchQuery s \<noteq> [] \<and> paused (throttleConfig s)
        \<and> previousState (throttleConfig s) = Some prev \<longrightarrow>
      throttleConfig (handleSearchChange [] s) =
        \<lparr>throttled = prevThrottled prev, paused = False, delay = prevDelay prev,
         previousState = None\<rparr>)"
  by (simp add: handleSearchChange_def Let_def split: option.splits)

theorem handleSearchChange_end_witness:
  "previousState (throttleConfig manuallyPausedExample) = None
   \<and> throttleConfig (handleSearchChange [] manuallyPausedExample) =
       throttleConfig manuallyPausedExample
   \<and> searchQuery autoPausedExample \<noteq> [] \<and> paused (throttleConfig autoPausedExample)
   \<and> previousState (throttleConfig autoPausedExample) =
       Some \<lparr>prevThrottled = True, prevDelay = 500\<rparr>
   \<and> throttleConfig (handleSearchChange [] autoPausedExample) =
       \<lparr>throttled = True, paused = False, delay = 500, previousState = None\<rparr>
   \<and> throttleConfig (handleSearchChange [] (handleSearchChange [] autoPausedExample)) =
       \<lparr>throttled = True, paused = False, delay = 500, previousState = None\<rparr>"
proof -
  have a: "previousState (throttleConfig manuallyPausedExample) = None"
    by (simp add: manuallyPausedExample_def moduleLoaded_def)
  have b: "searchQuery autoPausedExample \<noteq> []" "paused (throttleConfig autoPausedExample)"
    "previousState (throttleConfig autoPausedExample) = Some \<lparr>prevThrottled = True, prevDelay = 500\<rparr>"
    by (simp_all add: autoPausedExample_def moduleLoaded_def)
  from handleSearchChange_end [of manuallyPausedExample]
    handleSearchChange_end [of autoPausedExample "\<lparr>prevThrottled = True, prevDelay = 500\<rparr>"] a b
  show ?thesis by simp
qed

text \<open>
  C10. The toggle writes a throttle state without a snapshot, whatever the state before
  held; a search that ends after it restores nothing and leaves the state the toggle
  produced.
\<close>

theorem toggleThrottling_drops_snapshot:
  "previousState (throttleConfig (toggleThrottling now s)) = None
   \<and> throttleConfig (handleSearchChange [] (toggleThrottling now s)) =
       throttleConfig (toggleThrottling now s)"
  by (simp add: toggleThrottling_def handleSearchChange_def Let_def
      split: prod.splits option.splits)

theorem toggleThrottling_drops_snapshot_witness:
  "previousState (throttleConfig autoPausedExample) \<noteq> None
   \<and> previousState (throttleConfig (toggleThrottling 9 autoPausedExample)) = None
   \<and> throttleConfig (handleSearchChange [] (toggleThrottling 9 autoPausedExample)) =
       \<lparr>throttled = False, paused = False, delay = 250, previousState = None\<rparr>"
proof -
  have a: "previousState (throttleConfig autoPausedExample) \<noteq> None"
    by (simp add: autoPausedExample_def moduleLoaded_def)
  have b: "throttleConfig (toggleThrottling 9 autoPausedExample) =
             \<lparr>throttled = False, paused = False, delay = 250, previousState = None\<rparr>"
    by (simp add: toggleThrottling_def nextThrottle_def stopContinuousTestSignals_def
        autoPausedExample_def moduleLoaded_def Let_def)
  from toggleThrottling_drops_snapshot [of 9 autoPausedExample] a b show ?thesis by simp
qed


section \<open>Properties of the classifier\<close>

text \<open>
  C7. The text \<open>[Auth] login userId 42\<close> is decomposed into the module token
  \<open>[Auth] \<close> (bold, in the module colour), the action token \<open>login \<close>, the parameter
  token \<open>userId \<close> and the value \<open>42\<close> in the colour of numbers; as the only argument of
  a call nothing follows it.
\<close>

theorem formatLogText_auth_login:
  "formatText numeric ''[Auth] login userId 42'' =
     [Span ''#9B8FFF'' True ''[Auth] '', Span ''#FFC16C'' False ''login '',
      Span ''#FC8A58'' False ''userId '', Span ''#5AAAFA'' False ''42'']
   \<and> formatLogText numeric h (Str ''[Auth] login userId 42'') 0 1 =
       Inr [Span ''#9B8FFF'' True ''[Auth] '', Span ''#FFC16C'' False ''login '',
            Span ''#FC8A58'' False ''userId '', Span ''#5AAAFA'' False ''42'']"
  by code_simp

text \<open>
  C8. The remainder \<open>activePresetId: null, currentPatchName: Foo\<close> becomes two
  property and value pairs, \<open>null\<close> in the colour of null and \<open>Foo\<close> in the colour of
  generic values. The source reaches this through its pattern for exactly this pair of
  keys; its general colon and comma parser splits the same text into the same two pairs.
\<close>

theorem formatRest_property_list:
  "formatRest ''activePresetId: null, currentPatchName: Foo'' =
     [Span ''#FC8A58'' False ''activePresetId: '', Span ''#82AAFF'' False ''null'',
      TextNode '', '',
      Span ''#FC8A58'' False ''currentPatchName: '', Span ''#FFC16C'' False ''Foo'']
   \<and> parseParts ''activePresetId: null, currentPatchName: Foo'' =
       [(Property, ''activePresetId''), (Separator, '': ''), (Value, ''null''), (Comma, '', ''),
        (Property, ''currentPatchName''), (Separator, '': ''), (Value, ''Foo'')]
   \<and> map renderPart (parseParts ''activePresetId: null, currentPatchName: Foo'') =
       [Span ''#FC8A58'' False ''activePresetId'', TextNode '': '',
        Span ''#82AAFF'' False ''null'', TextNode '', '',
        Span ''#FC8A58'' False ''currentPatchName'', TextNode '': '',
        Span ''#FFC16C'' False ''Foo'']
   \<and> formatText numeric
        ''[PatchSelectMenu] Trigger Render activePresetId: null, currentPatchName: Foo'' =
       [Span ''#9B8FFF'' True ''[PatchSelectMenu] '', Span ''#FFC16C'' False ''Trigger '',
        Span ''#FC8A58'' False ''Render '',
        Span ''#FC8A58'' False ''activePresetId: '', Span ''#82AAFF'' False ''null'',
        TextNode '', '',
        Span ''#FC8A58'' False ''currentPatchName: '', Span ''#FFC16C'' False ''Foo'']"
  by code_simp

text \<open>
  C6. The claim asks that no structured argument makes the logger throw. For an object
  that holds itself \<open>formatLogText\<close> throws, and the TypeError crosses both
  \<open>window.screenLog.log\<close> and the decorated \<open>console.error\<close> of an attached logger. The
  earlier version of the component shows the placeholder for the same object.
\<close>

theorem formatLogText_cyclic_throws:
  "formatLogText integerText cyclicStore (Ref 0) 0 1 = Inl TypeError
   \<and> andThen (initScreenLog exampleProps integerText 0 (moduleLoaded cyclicStore))
        (screenLogCall integerText (Level Log) [Ref 0] 5) = Inl TypeError
   \<and> andThen (initScreenLog exampleProps integerText 0 (moduleLoaded cyclicStore))
        (consoleCall integerText (Level Error) [Str ''failed'', Ref 0] 5) = Inl TypeError
   \<and> plainArgNode cyclicStore (Ref 0) = ObjectData (Placeholder ''[Circular]'')"
  by code_simp

section \<open>Properties of the throttle gate\<close>

text \<open>
  C3, as the claim states it, fails: right after the toggle has entered Throttled(250)
  at time 1000, two entries 100 ms apart are both discarded, and of two entries 300 ms
  apart only the second is admitted.
\<close>

theorem throttled_pair_counterexample:
  "map_sum id shownTexts
     (andThen
        (andThen (initScreenLog exampleProps integerText 0 (moduleLoaded []))
           (screenLogCall integerText (Level Log) [Str ''first''] 1100 \<circ> toggleThrottling 1000))
        (screenLogCall integerText (Level Log) [Str ''second''] 1200))
     = Inr [''Screen logger initialized.'']
   \<and> map_sum id shownTexts
     (andThen
        (andThen (initScreenLog exampleProps integerText 0 (moduleLoaded []))
           (screenLogCall integerText (Level Log) [Str ''first''] 1100 \<circ> toggleThrottling 1000))
        (screenLogCall integerText (Level Log) [Str ''second''] 1400))
     = Inr [''Screen logger initialized.'', ''second'']"
  by code_simp

text \<open>
  C3, amended. With a panel, throttled and not paused, an entry whose arguments can be
  rendered is discarded unless \<open>now - lastLogTime\<close> has reached the delay, and on
  admission \<open>lastLogTime\<close> becomes \<open>now\<close>. When the first of two entries is admitted, a
  second one less than the delay later is discarded (one admission), and a second one at
  least the delay later is admitted as well (two admissions).
\<close>

theorem throttled_admission:
  assumes "logElement s = Some shown"
    and "throttled (throttleConfig s)" and "\<not> paused (throttleConfig s)"
    and "buildEntry numeric (objects s) color args = Inr el"
    and "buildEntry numeric (objects s) color' args' = Inr el'"
  shows "genericLogger numeric color args now s =
           (if delay (throttleConfig s) \<le> now - lastLogTime s
            then Inr (s\<lparr>logElement := Some (shown @ [el]),
                        timeouts := timeouts s @ [(0, ScrollToEnd)],
                        lastLogTime := now\<rparr>)
            else Inr s)
       \<and> (delay (throttleConfig s) \<le> now - lastLogTime s \<longrightarrow>
            (\<exists>s1 s2. genericLogger numeric color args now s = Inr s1
               \<and> genericLogger numeric color' args' later s1 = Inr s2
               \<and> lastLogTime s1 = now
               \<and> logElement s2 =
                   Some (shown @ (if delay (throttleConfig s) \<le> later - now
                                  then [el, el'] else [el]))))"
  using assms
  by (simp add: genericLogger_def writeEntry_def)

theorem throttled_admission_witness:
  "logElement throttledExample = Some []
   \<and> throttled (throttleConfig throttledExample) \<and> \<not> paused (throttleConfig throttledExample)
   \<and> delay (throttleConfig throttledExample) \<le> 1300 - lastLogTime throttledExample
   \<and> map_sum id shownTexts
       (andThen (genericLogger integerText logColor [Str ''first''] 1300 throttledExample)
                (genericLogger integerText warnColor [Str ''second''] 1400)) = Inr [''first'']
   \<and> map_sum id shownTexts
       (andThen (genericLogger integerText logColor [Str ''first''] 1300 throttledExample)
                (genericLogger integerText warnColor [Str ''second''] 1600)) =
       Inr [''first'', ''second'']"
proof -
  have st: "logElement throttledExample = Some []"
    "throttled (throttleConfig throttledExample)" "\<not> paused (throttleConfig throttledExample)"
    "delay (throttleConfig throttledExample) = 250" "lastLogTime throttledExample = 1000"
    "objects throttledExample = []"
    by (simp_all add: throttledExample_def moduleLoaded_def)
  have e1: "buildEntry integerText (objects throttledExample) logColor [Str ''first''] =
      Inr \<lparr>entryColor = logColor, entryBorder = ''#A0AEC0'',
           entryContent = [Span ''#FFC16C'' False ''first'']\<rparr>"
    unfolding st by code_simp
  have e2: "buildEntry integerText (objects throttledExample) warnColor [Str ''second''] =
      Inr \<lparr>entryColor = warnColor, entryBorder = ''#F6AD55'',
           entryContent = [Span ''#FFC16C'' False ''second'']\<rparr>"
    unfolding st by code_simp
  from throttled_admission [OF st(1) st(2) st(3) e1 e2, of 1300 1400]
    throttled_admission [OF st(1) st(2) st(3) e1 e2, of 1300 1600] st
  show ?thesis by (auto simp: shownTexts_def entryText_def)
qed


section \<open>Properties of the sink\<close>

text \<open>
  What a call leaves alone: a sink, a decorated function and a replay change neither the
  console bindings nor \<open>window.screenLog\<close>, the throttle state or the store.
\<close>

lemma formatArgs_serializable:
  "serializable h args \<Longrightarrow> \<exists>nodes. formatArgs numeric h args index n = Inr nodes"
proof (induction args arbitrary: index)
  case Nil
  then show ?case by simp
next
  case (Cons a args)
  then have ser: "serializable h args" and ok: "\<not> circular h [] a"
    by (simp_all add: serializable_def)
  from Cons.IH [OF ser] obtain rest where rest: "formatArgs numeric h args (Suc index) n = Inr rest"
    by blast
  from ok obtain nodes where "formatLogText numeric h a index n = Inr nodes"
    by (cases a) (simp_all add: jsonStringify_def)
  with rest show ?case by simp
qed

lemma buildEntry_serializable:
  "serializable h args \<Longrightarrow> \<exists>el. buildEntry numeric h color args = Inr el"
  using formatArgs_serializable [of h args numeric 0 "length args"]
  by (auto simp: buildEntry_def)

lemma genericLogger_frame:
  assumes "genericLogger numeric color args now s = Inr s'"
  shows "console s' = console s \<and> screenLog s' = screenLog s
       \<and> throttleConfig s' = throttleConfig s \<and> objects s' = objects s
       \<and> isInitialized s' = isInitialized s \<and> throttleTimeout s' = throttleTimeout s
       \<and> testSignalInterval s' = testSignalInterval s \<and> earlyLogs s' = earlyLogs s
       \<and> nativeConsole s' = nativeConsole s"
  using assms
  by (auto simp: genericLogger_def writeEntry_def split: option.splits if_splits sum.splits)

lemma invoke_frame:
  "invoke numeric f args now s = Inr s' \<Longrightarrow>
     console s' = console s \<and> screenLog s' = screenLog s
     \<and> throttleConfig s' = throttleConfig s \<and> objects s' = objects s
     \<and> isInitialized s' = isInitialized s \<and> testSignalInterval s' = testSignalInterval s"
proof (induction f arbitrary: s s')
  case (Native m)
  then show ?case by auto
next
  case (EarlyCapture l)
  then show ?case by auto
next
  case (Decorated m saved)
  from Decorated.prems obtain s1 where
    sink: "sinkFn numeric m args now s = Inr s1" and rest: "invoke numeric saved args now s1 = Inr s'"
    by (auto split: sum.splits)
  have "console s1 = console s \<and> screenLog s1 = screenLog s
     \<and> throttleConfig s1 = throttleConfig s \<and> objects s1 = objects s
     \<and> isInitialized s1 = isInitialized s \<and> testSignalInterval s1 = testSignalInterval s"
  proof (cases m)
    case (Level l)
    with sink show ?thesis using genericLogger_frame [of numeric "levelColor l" args now s s1] by simp
  next
    case Clear
    with sink show ?thesis by (auto simp: clearLog_def)
  qed
  with Decorated.IH [OF rest] show ?case by simp
qed

lemma screenLogCall_frame:
  "screenLogCall numeric m args now s = Inr s' \<Longrightarrow>
     console s' = console s \<and> screenLog s' = screenLog s
     \<and> throttleConfig s' = throttleConfig s \<and> objects s' = objects s
     \<and> isInitialized s' = isInitialized s \<and> testSignalInterval s' = testSignalInterval s"
  by (auto simp: screenLogCall_def split: option.splits dest: invoke_frame)

lemma replayEntries_frame:
  "replayEntries numeric es now s = Inr s' \<Longrightarrow>
     console s' = console s \<and> screenLog s' = screenLog s
     \<and> throttleConfig s' = throttleConfig s \<and> objects s' = objects s
     \<and> isInitialized s' = isInitialized s \<and> testSignalInterval s' = testSignalInterval s"
proof (induction es arbitrary: s)
  case Nil
  then show ?case by simp
next
  case (Cons e es)
  from Cons.prems obtain s1 where
    one: "screenLogCall numeric (Level (logType e)) (logArgs e) now s = Inr s1"
    and rest: "replayEntries numeric es now s1 = Inr s'"
    by (auto split: sum.splits)
  from screenLogCall_frame [OF one] Cons.IH [OF rest] show ?case by simp
qed

lemma replayLogsToScreenLogger_frame:
  assumes "replayLogsToScreenLogger numeric maxEntries now s = Inr s'"
  shows "console s' = console s \<and> screenLog s' = screenLog s
     \<and> throttleConfig s' = throttleConfig s \<and> objects s' = objects s
     \<and> isInitialized s' = isInitialized s \<and> testSignalInterval s' = testSignalInterval s"
proof (cases "screenLog s = None \<or> earlyLogs s = []")
  case True
  with assms show ?thesis by (simp add: replayLogsToScreenLogger_def)
next
  case False
  with assms obtain s1 s2 where
    a: "screenLogCall numeric (Level Log) [Str startSeparator] now s = Inr s1"
    and b: "replayEntries numeric (logsToReplay maxEntries (earlyLogs s1)) now s1 = Inr s2"
    and c: "(if screenLog s2 = None then Inr s2
             else screenLogCall numeric (Level Log) [Str endSeparator] now s2) = Inr s'"
    by (auto simp: replayLogsToScreenLogger_def split: sum.splits)
  from c have "console s' = console s2 \<and> screenLog s' = screenLog s2
     \<and> throttleConfig s' = throttleConfig s2 \<and> objects s' = objects s2
     \<and> isInitialized s' = isInitialized s2 \<and> testSignalInterval s' = testSignalInterval s2"
    by (auto split: if_splits dest: screenLogCall_frame)
  with screenLogCall_frame [OF a] replayEntries_frame [OF b] show ?thesis by simp
qed

lemma initScreenLog_bindings:
  assumes "\<not> (isInitialized s \<and> logElement s \<noteq> None)"
    and "initScreenLog P numeric now s = Inr s'"
  shows "console s' = decorate (console s)
       \<and> screenLog s' = Some \<lparr>methods = decorate (console s), savedConsole = console s\<rparr>"
proof -
  let ?s1 = "s\<lparr>logElement := Some [], console := decorate (console s),
               screenLog := Some \<lparr>methods = decorate (console s), savedConsole = console s\<rparr>,
               isInitialized := True\<rparr>"
  from assms obtain s2 s3 where
    a: "genericLogger numeric logColor [Str greeting] now ?s1 = Inr s2"
    and b: "replayLogsToScreenLogger numeric 200 now s2 = Inr s3"
    and c: "s' = (if enableTesting P \<and> initiallyVisible P then startContinuousTestSignals s3 else s3)"
    by (auto simp: initScreenLog_def Let_def split: sum.splits)
  from genericLogger_frame [OF a] replayLogsToScreenLogger_frame [OF b] c
  show ?thesis by (simp add: startContinuousTestSignals_def)
qed

lemma chan_decorate: "chan m (decorate c) = Decorated m (chan m c)"
proof (cases m)
  case (Level l)
  then show ?thesis by (cases l) (simp_all add: decorate_def)
next
  case Clear
  then show ?thesis by (simp add: decorate_def)
qed

lemma invoke_undecorated:
  assumes "\<not> isDecorated f"
  shows "\<exists>r. invoke numeric f args now s = Inr r \<and> logElement r = logElement s
           \<and> throttleConfig r = throttleConfig s \<and> lastLogTime r = lastLogTime s"
  using assms by (cases f) auto

text \<open>
  A call through \<open>window.screenLog\<close> of a logger attached over the early wrappers, in the
  Normal state: the entry is shown, and the early wrapper records the call once more.
\<close>

lemma decorated_early_normal:
  assumes "logElement s = Some shown"
    and "\<not> paused (throttleConfig s)" and "\<not> throttled (throttleConfig s)"
    and "entryFor numeric (objects s) (l, args) = Inr el"
  shows "invoke numeric (Decorated (Level l) (EarlyCapture l)) args now s =
           Inr (s\<lparr>logElement := Some (shown @ [el]),
                   timeouts := timeouts s @ [(0, ScrollToEnd)],
                   earlyLogs := earlyLogs s @ [capture now (l, args)],
                   nativeConsole := nativeConsole s @ [nativeCall (l, args)]\<rparr>)"
  using assms
  by (simp add: genericLogger_def writeEntry_def entryFor_def capture_def nativeCall_def)

lemma chan_early: "chan (Level l) earlyConsole = EarlyCapture l"
  by (cases l) (simp_all add: earlyConsole_def)

lemma screenLogCall_normal:
  assumes "attachedNormal s" and "logElement s = Some shown"
    and "entryFor numeric (objects s) (l, args) = Inr el"
  shows "screenLogCall numeric (Level l) args now s =
           Inr (s\<lparr>logElement := Some (shown @ [el]),
                   timeouts := timeouts s @ [(0, ScrollToEnd)],
                   earlyLogs := earlyLogs s @ [capture now (l, args)],
                   nativeConsole := nativeConsole s @ [nativeCall (l, args)]\<rparr>)"
proof -
  from assms(1) have api: "screenLog s = Some \<lparr>methods = decorate earlyConsole, savedConsole = earlyConsole\<rparr>"
    and normal: "\<not> paused (throttleConfig s)" "\<not> throttled (throttleConfig s)"
    by (simp_all add: attachedNormal_def)
  have "chan (Level l) (decorate earlyConsole) = Decorated (Level l) (EarlyCapture l)"
    by (simp add: chan_decorate chan_early)
  with api decorated_early_normal [OF assms(2) normal assms(3)]
  show ?thesis by (simp add: screenLogCall_def)
qed

lemma entryFor_serializable:
  "serializable h (snd call) \<Longrightarrow> \<exists>el. entryFor numeric h call = Inr el"
  using buildEntry_serializable [of h "snd call" numeric "levelColor (fst call)"]
  by (simp add: entryFor_def)

lemma replayEntries_normal:
  assumes "attachedNormal s" and "logElement s = Some shown"
    and "\<forall>e \<in> set es. serializable (objects s) (logArgs e)"
  shows "\<exists>s' els. replayEntries numeric es now s = Inr s'
           \<and> attachedNormal s'
           \<and> logElement s' = Some (shown @ els)
           \<and> map Inr els = map (entryFor numeric (objects s)) (map callOf es)
           \<and> earlyLogs s' = earlyLogs s @ map (capture now) (map callOf es)
           \<and> nativeConsole s' = nativeConsole s @ map nativeCall (map callOf es)
           \<and> objects s' = objects s"
  using assms
proof (induction es arbitrary: s shown)
  case Nil
  then show ?case by simp
next
  case (Cons e es)
  from Cons.prems(3) have ser: "serializable (objects s) (snd (callOf e))"
    by (simp add: callOf_def)
  from entryFor_serializable [OF ser] obtain el where
    el: "entryFor numeric (objects s) (logType e, logArgs e) = Inr el"
    by (auto simp: callOf_def)
  let ?s1 = "s\<lparr>logElement := Some (shown @ [el]),
               timeouts := timeouts s @ [(0, ScrollToEnd)],
               earlyLogs := earlyLogs s @ [capture now (logType e, logArgs e)],
               nativeConsole := nativeConsole s @ [nativeCall (logType e, logArgs e)]\<rparr>"
  have one: "screenLogCall numeric (Level (logType e)) (logArgs e) now s = Inr ?s1"
    by (rule screenLogCall_normal [OF Cons.prems(1) Cons.prems(2) el])
  have n1: "attachedNormal ?s1" using Cons.prems(1) by (simp add: attachedNormal_def)
  have l1: "logElement ?s1 = Some (shown @ [el])" by simp
  have ser1: "\<forall>x \<in> set es. serializable (objects ?s1) (logArgs x)" using Cons.prems(3) by simp
  from Cons.IH [OF n1 l1 ser1] obtain s' els where
    r: "replayEntries numeric es now ?s1 = Inr s'"
    and n: "attachedNormal s'"
    and l: "logElement s' = Some ((shown @ [el]) @ els)"
    and m: "map Inr els = map (entryFor numeric (objects ?s1)) (map callOf es)"
    and b: "earlyLogs s' = earlyLogs ?s1 @ map (capture now) (map callOf es)"
    and c: "nativeConsole s' = nativeConsole ?s1 @ map nativeCall (map callOf es)"
    and o: "objects s' = objects ?s1"
    by blast
  have "replayEntries numeric (e # es) now s = Inr s'" using one r by simp
  moreover have "logElement s' = Some (shown @ (el # els))" using l by simp
  moreover have "map Inr (el # els) = map (entryFor numeric (objects s)) (map callOf (e # es))"
    using m el by (simp add: callOf_def)
  moreover have "earlyLogs s' = earlyLogs s @ map (capture now) (map callOf (e # es))"
    using b by (simp add: callOf_def)
  moreover have "nativeConsole s' = nativeConsole s @ map nativeCall (map callOf (e # es))"
    using c by (simp add: callOf_def)
  moreover have "objects s' = objects s" using o by simp
  ultimately show ?case using n by blast
qed

lemma sliceLast_snoc: "sliceLast (Suc (Suc n)) (xs @ [x]) = sliceLast (Suc n) xs @ [x]"
  by (simp add: sliceLast_def)

lemma startSeparator_is_separator: "isSeparator (capture now (Log, [Str startSeparator]))"
  by (simp add: capture_def startSeparator_def)

lemma logsToReplay_after_start:
  "logsToReplay 200 (buffer @ [capture now (Log, [Str startSeparator])]) = logsToReplay 199 buffer"
proof -
  have "sliceLast (Suc (Suc 198)) (buffer @ [capture now (Log, [Str startSeparator])])
        = sliceLast (Suc 198) buffer @ [capture now (Log, [Str startSeparator])]"
    by (rule sliceLast_snoc)
  then have "sliceLast 200 (buffer @ [capture now (Log, [Str startSeparator])])
        = sliceLast 199 buffer @ [capture now (Log, [Str startSeparator])]"
    by simp
  then show ?thesis
    using startSeparator_is_separator [of now] by (simp add: logsToReplay_def)
qed

lemma set_logsToReplay: "set (logsToReplay n buffer) \<subseteq> set buffer"
  by (auto simp: logsToReplay_def sliceLast_def dest: in_set_dropD)

lemma replay_normal:
  assumes "attachedNormal s" and "logElement s = Some shown"
    and "earlyLogs s \<noteq> []"
    and "\<forall>e \<in> set (earlyLogs s). serializable (objects s) (logArgs e)"
  shows "\<exists>s' els. replayLogsToScreenLogger numeric 200 now s = Inr s'
           \<and> logElement s' = Some (shown @ els)
           \<and> map Inr els = map (entryFor numeric (objects s))
                ((Log, [Str startSeparator]) # map callOf (logsToReplay 199 (earlyLogs s))
                   @ [(Log, [Str endSeparator])])
           \<and> earlyLogs s' = earlyLogs s @ map (capture now)
                ((Log, [Str startSeparator]) # map callOf (logsToReplay 199 (earlyLogs s))
                   @ [(Log, [Str endSeparator])])
           \<and> nativeConsole s' = nativeConsole s @ map nativeCall
                ((Log, [Str startSeparator]) # map callOf (logsToReplay 199 (earlyLogs s))
                   @ [(Log, [Str endSeparator])])
           \<and> console s' = console s \<and> screenLog s' = screenLog s
           \<and> throttleConfig s' = throttleConfig s"
proof -
  let ?h = "objects s"
  let ?start = "(Log, [Str startSeparator])"
  let ?end = "(Log, [Str endSeparator])"
  let ?es = "logsToReplay 199 (earlyLogs s)"
  have "serializable ?h (snd ?start)" by (simp add: serializable_def)
  from entryFor_serializable [OF this] obtain e1 where
    e1: "entryFor numeric ?h (Log, [Str startSeparator]) = Inr e1" by blast
  have "serializable ?h (snd ?end)" by (simp add: serializable_def)
  from entryFor_serializable [OF this] obtain e2 where
    e2: "entryFor numeric ?h (Log, [Str endSeparator]) = Inr e2" by blast
  let ?s1 = "s\<lparr>logElement := Some (shown @ [e1]),
               timeouts := timeouts s @ [(0, ScrollToEnd)],
               earlyLogs := earlyLogs s @ [capture now ?start],
               nativeConsole := nativeConsole s @ [nativeCall ?start]\<rparr>"
  have a: "screenLogCall numeric (Level Log) [Str startSeparator] now s = Inr ?s1"
    by (rule screenLogCall_normal [OF assms(1) assms(2) e1])
  have n1: "attachedNormal ?s1" using assms(1) by (simp add: attachedNormal_def)
  have l1: "logElement ?s1 = Some (shown @ [e1])" by simp
  have list: "logsToReplay 200 (earlyLogs ?s1) = ?es"
    by (simp add: logsToReplay_after_start)
  have ser: "\<forall>e \<in> set ?es. serializable (objects ?s1) (logArgs e)"
    using assms(4) set_logsToReplay [of 199 "earlyLogs s"] by auto
  from replayEntries_normal [OF n1 l1 ser, of numeric now] obtain s2 els where
    r: "replayEntries numeric ?es now ?s1 = Inr s2"
    and n2: "attachedNormal s2"
    and l2: "logElement s2 = Some ((shown @ [e1]) @ els)"
    and m2: "map Inr els = map (entryFor numeric (objects ?s1)) (map callOf ?es)"
    and b2: "earlyLogs s2 = earlyLogs ?s1 @ map (capture now) (map callOf ?es)"
    and c2: "nativeConsole s2 = nativeConsole ?s1 @ map nativeCall (map callOf ?es)"
    and o2: "objects s2 = objects ?s1"
    by blast
  let ?s3 = "s2\<lparr>logElement := Some (((shown @ [e1]) @ els) @ [e2]),
               timeouts := timeouts s2 @ [(0, ScrollToEnd)],
               earlyLogs := earlyLogs s2 @ [capture now ?end],
               nativeConsole := nativeConsole s2 @ [nativeCall ?end]\<rparr>"
  have e2': "entryFor numeric (objects s2) (Log, [Str endSeparator]) = Inr e2"
    using e2 o2 by simp
  have c: "screenLogCall numeric (Level Log) [Str endSeparator] now s2 = Inr ?s3"
    by (rule screenLogCall_normal [OF n2 l2 e2'])
  have api: "screenLog s = Some \<lparr>methods = decorate earlyConsole, savedConsole = earlyConsole\<rparr>"
    "screenLog s2 = Some \<lparr>methods = decorate earlyConsole, savedConsole = earlyConsole\<rparr>"
    using assms(1) n2 by (simp_all add: attachedNormal_def)
  have run: "replayLogsToScreenLogger numeric 200 now s = Inr ?s3"
    using api assms(3) a r c list by (simp add: replayLogsToScreenLogger_def)
  from replayLogsToScreenLogger_frame [OF run] have
    frame: "console ?s3 = console s \<and> screenLog ?s3 = screenLog s
            \<and> throttleConfig ?s3 = throttleConfig s"
    by simp
  have "logElement ?s3 = Some (shown @ (e1 # els @ [e2]))" by simp
  moreover have "map Inr (e1 # els @ [e2]) = map (entryFor numeric ?h) (?start # map callOf ?es @ [?end])"
    using e1 e2 m2 by simp
  moreover have "earlyLogs ?s3 = earlyLogs s @ map (capture now) (?start # map callOf ?es @ [?end])"
    using b2 by simp
  moreover have "nativeConsole ?s3 = nativeConsole s @ map nativeCall (?start # map callOf ?es @ [?end])"
    using c2 by simp
  ultimately show ?thesis using run frame by blast
qed


lemma attach_normal:
  assumes "\<not> isInitialized s" and "console s = earlyConsole"
    and "\<not> paused (throttleConfig s)" and "\<not> throttled (throttleConfig s)"
    and "earlyLogs s \<noteq> []"
    and "\<forall>e \<in> set (earlyLogs s). serializable (objects s) (logArgs e)"
  shows "\<exists>s' els. initScreenLog P numeric now s = Inr s'
           \<and> logElement s' = Some els
           \<and> map Inr els = map (entryFor numeric (objects s))
                ((Log, [Str greeting]) # (Log, [Str startSeparator])
                   # map callOf (logsToReplay 199 (earlyLogs s)) @ [(Log, [Str endSeparator])])
           \<and> earlyLogs s' = earlyLogs s @ map (capture now)
                ((Log, [Str startSeparator]) # map callOf (logsToReplay 199 (earlyLogs s))
                   @ [(Log, [Str endSeparator])])
           \<and> nativeConsole s' = nativeConsole s @ map nativeCall
                ((Log, [Str startSeparator]) # map callOf (logsToReplay 199 (earlyLogs s))
                   @ [(Log, [Str endSeparator])])
           \<and> screenLog s' = Some \<lparr>methods = decorate earlyConsole, savedConsole = earlyConsole\<rparr>
           \<and> throttleConfig s' = throttleConfig s \<and> objects s' = objects s"
proof -
  let ?api = "\<lparr>methods = decorate earlyConsole, savedConsole = earlyConsole\<rparr>"
  let ?s1 = "s\<lparr>logElement := Some [], console := decorate earlyConsole,
               screenLog := Some ?api, isInitialized := True\<rparr>"
  have "serializable (objects s) (snd (Log, [Str greeting]))" by (simp add: serializable_def)
  from entryFor_serializable [OF this] obtain g where
    g: "entryFor numeric (objects s) (Log, [Str greeting]) = Inr g" by blast
  let ?s2 = "?s1\<lparr>logElement := Some [g], timeouts := timeouts s @ [(0, ScrollToEnd)]\<rparr>"
  have a: "genericLogger numeric logColor [Str greeting] now ?s1 = Inr ?s2"
    using g assms(3) assms(4) by (simp add: genericLogger_def writeEntry_def entryFor_def)
  have n2: "attachedNormal ?s2" using assms(3) assms(4) by (simp add: attachedNormal_def)
  have l2: "logElement ?s2 = Some ([] @ [g])" by simp
  have b2: "earlyLogs ?s2 \<noteq> []" using assms(5) by simp
  have ser2: "\<forall>e \<in> set (earlyLogs ?s2). serializable (objects ?s2) (logArgs e)"
    using assms(6) by simp
  from replay_normal [OF n2 l2 b2 ser2, of numeric now] obtain s3 els where
    r: "replayLogsToScreenLogger numeric 200 now ?s2 = Inr s3"
    and l3: "logElement s3 = Some (([] @ [g]) @ els)"
    and m3: "map Inr els = map (entryFor numeric (objects ?s2))
                ((Log, [Str startSeparator]) # map callOf (logsToReplay 199 (earlyLogs ?s2))
                   @ [(Log, [Str endSeparator])])"
    and e3: "earlyLogs s3 = earlyLogs ?s2 @ map (capture now)
                ((Log, [Str startSeparator]) # map callOf (logsToReplay 199 (earlyLogs ?s2))
                   @ [(Log, [Str endSeparator])])"
    and c3: "nativeConsole s3 = nativeConsole ?s2 @ map nativeCall
                ((Log, [Str startSeparator]) # map callOf (logsToReplay 199 (earlyLogs ?s2))
                   @ [(Log, [Str endSeparator])])"
    and f3: "screenLog s3 = screenLog ?s2" "throttleConfig s3 = throttleConfig ?s2"
    by blast
  from replayLogsToScreenLogger_frame [OF r] have o3: "objects s3 = objects s" by simp
  let ?s' = "if enableTesting P \<and> initiallyVisible P then startContinuousTestSignals s3 else s3"
  have run: "initScreenLog P numeric now s = Inr ?s'"
    using assms(1) assms(2) a r by (simp add: initScreenLog_def Let_def)
  have same: "logElement ?s' = logElement s3" "earlyLogs ?s' = earlyLogs s3"
    "nativeConsole ?s' = nativeConsole s3" "screenLog ?s' = screenLog s3"
    "throttleConfig ?s' = throttleConfig s3" "objects ?s' = objects s3"
    by (simp_all add: startContinuousTestSignals_def)
  have "logElement ?s' = Some (g # els)" using same l3 by simp
  moreover have "map Inr (g # els) = map (entryFor numeric (objects s))
                ((Log, [Str greeting]) # (Log, [Str startSeparator])
                   # map callOf (logsToReplay 199 (earlyLogs s)) @ [(Log, [Str endSeparator])])"
    using g m3 by simp
  moreover have "earlyLogs ?s' = earlyLogs s @ map (capture now)
                ((Log, [Str startSeparator]) # map callOf (logsToReplay 199 (earlyLogs s))
                   @ [(Log, [Str endSeparator])])"
    using same e3 by simp
  moreover have "nativeConsole ?s' = nativeConsole s @ map nativeCall
                ((Log, [Str startSeparator]) # map callOf (logsToReplay 199 (earlyLogs s))
                   @ [(Log, [Str endSeparator])])"
    using same c3 by simp
  moreover have "screenLog ?s' = Some ?api" using same f3 by simp
  moreover have "throttleConfig ?s' = throttleConfig s" using same f3 by simp
  moreover have "objects ?s' = objects s" using same o3 by simp
  ultimately show ?thesis using run by blast
qed

lemma serializable_after_replay:
  assumes "\<forall>e \<in> set buffer. serializable h (logArgs e)"
  shows "\<forall>e \<in> set (buffer @ map (capture now)
                ((Log, [Str startSeparator]) # map callOf (logsToReplay n buffer)
                   @ [(Log, [Str endSeparator])])). serializable h (logArgs e)"
proof
  fix e
  assume "e \<in> set (buffer @ map (capture now)
                ((Log, [Str startSeparator]) # map callOf (logsToReplay n buffer)
                   @ [(Log, [Str endSeparator])]))"
  then consider "e \<in> set buffer" | "e = capture now (Log, [Str startSeparator])"
    | "e = capture now (Log, [Str endSeparator])"
    | x where "x \<in> set (logsToReplay n buffer)" "e = capture now (callOf x)"
    by auto
  then show "serializable h (logArgs e)"
  proof cases
    case 1
    with assms show ?thesis by simp
  next
    case 2
    then show ?thesis by (simp add: capture_def serializable_def)
  next
    case 3
    then show ?thesis by (simp add: capture_def serializable_def)
  next
    case 4
    from 4(1) set_logsToReplay [of n buffer] have "x \<in> set buffer" by auto
    with assms 4(2) show ?thesis by (simp add: capture_def callOf_def)
  qed
qed

text \<open>
  After attach and destroy the console methods are the functions saved at attach time
  again, the panel is gone and \<open>throttleTimeoutRef\<close> is null; the timeouts that were
  scheduled without a handle are left as they are.
\<close>

lemma destroy_restores_console:
  assumes "\<not> (isInitialized s \<and> logElement s \<noteq> None)"
    and "initScreenLog P numeric now s = Inr s'"
  shows "(\<forall>m. isDecorated (chan m (console s')))
       \<and> screenLogDestroy s' = Inr (destroy (console s) s')
       \<and> console (destroy (console s) s') = console s
       \<and> logElement (destroy (console s) s') = None
       \<and> throttleTimeout (destroy (console s) s') = None
       \<and> timeouts (destroy (console s) s') = timeouts s'"
proof -
  from initScreenLog_bindings [OF assms] have
    c: "console s' = decorate (console s)"
    and a: "screenLog s' = Some \<lparr>methods = decorate (console s), savedConsole = console s\<rparr>"
    by simp_all
  have "\<forall>m. isDecorated (chan m (console s'))" by (simp add: c chan_decorate)
  moreover have "screenLogDestroy s' = Inr (destroy (console s) s')"
    by (simp add: screenLogDestroy_def a)
  ultimately show ?thesis by (simp add: destroy_def)
qed

text \<open>
  C9. The claim asks that \<open>destroy\<close> cancels any pending timer before it returns. The
  toggle hands its status callback to \<open>setTimeout\<close> and drops the handle, and
  \<open>throttleTimeoutRef\<close>, which \<open>destroy\<close> clears, is never assigned. With the default
  props, after attach, a toggle at time 100 and \<open>destroy\<close>, the status callback is still
  pending; when it runs there is no panel, yet it logs its message through
  \<open>window.screenLog\<close> and arms the test signals again.
\<close>

theorem destroy_leaves_status_timeout:
  "map_sum id timeouts
     (andThen (initScreenLog defaultProps integerText 0 (moduleLoaded []))
              (screenLogDestroy \<circ> toggleThrottling 100))
   = Inr [(0, ScrollToEnd), (50, StatusMessage ''THROTTLING ENABLED: 250ms'')]
   \<and> map_sum id testSignalInterval
     (andThen (initScreenLog defaultProps integerText 0 (moduleLoaded []))
              (screenLogDestroy \<circ> toggleThrottling 100))
   = Inr None
   \<and> map_sum id nativeConsole
     (andThen
        (andThen (initScreenLog defaultProps integerText 0 (moduleLoaded []))
                 (screenLogDestroy \<circ> toggleThrottling 100))
        (runTask defaultProps integerText (StatusMessage ''THROTTLING ENABLED: 250ms'') 150))
   = Inr [(Level Log, [Str ''THROTTLING ENABLED: 250ms''])]
   \<and> map_sum id testSignalInterval
     (andThen
        (andThen (initScreenLog defaultProps integerText 0 (moduleLoaded []))
                 (screenLogDestroy \<circ> toggleThrottling 100))
        (runTask defaultProps integerText (StatusMessage ''THROTTLING ENABLED: 250ms'') 150))
   = Inr (Some 250)
   \<and> map_sum id logElement
     (andThen
        (andThen (initScreenLog defaultProps integerText 0 (moduleLoaded []))
                 (screenLogDestroy \<circ> toggleThrottling 100))
        (runTask defaultProps integerText (StatusMessage ''THROTTLING ENABLED: 250ms'') 150))
   = Inr None"
  by code_simp

text \<open>
  What the replay selects from a buffer of fewer than two hundred entries without
  separator lines is the buffer itself; and the last entries of a buffer are always
  among the ones a slice keeps.
\<close>

lemma logsToReplay_whole:
  assumes "length buffer < 200" and "\<forall>e \<in> set buffer. \<not> isSeparator e"
  shows "logsToReplay 199 buffer = buffer"
proof -
  from assms(1) have "sliceLast 199 buffer = buffer" by (simp add: sliceLast_def)
  with assms(2) show ?thesis by (simp add: logsToReplay_def)
qed

lemma sliceLast_keeps_end:
  assumes "0 < n" and "length zs \<le> n"
  shows "set zs \<subseteq> set (sliceLast n (ys @ zs))"
proof -
  from assms have "length (ys @ zs) - n \<le> length ys" by simp
  then have "drop (length (ys @ zs) - n) (ys @ zs) = drop (length (ys @ zs) - n) ys @ zs"
    by simp
  with assms(1) show ?thesis by (simp add: sliceLast_def)
qed

lemma isSeparator_capture: "isSeparator (capture now (callOf e)) = isSeparator e"
  by (simp add: capture_def callOf_def)

lemma callOf_capture: "callOf (capture now call) = call"
  by (simp add: capture_def callOf_def)

lemma second_replay_calls:
  assumes "buffer \<noteq> []" and "\<forall>e \<in> set buffer. \<not> isSeparator e"
  shows "logsToReplay 199 (buffer @ map (capture now)
            ((Log, [Str startSeparator]) # map callOf buffer @ [(Log, [Str endSeparator])])) \<noteq> []
       \<and> set (map callOf (logsToReplay 199 (buffer @ map (capture now)
            ((Log, [Str startSeparator]) # map callOf buffer @ [(Log, [Str endSeparator])]))))
          \<subseteq> set (map callOf buffer)"
proof -
  let ?S = "capture now (Log, [Str startSeparator])"
  let ?E = "capture now (Log, [Str endSeparator])"
  let ?copies = "map (capture now) (map callOf buffer)"
  let ?all = "buffer @ map (capture now)
            ((Log, [Str startSeparator]) # map callOf buffer @ [(Log, [Str endSeparator])])"
  let ?c = "capture now (callOf (last buffer))"
  have sepS: "isSeparator ?S" by (simp add: capture_def startSeparator_def)
  have sepE: "isSeparator ?E" by (simp add: capture_def endSeparator_def)
  have split: "buffer = butlast buffer @ [last buffer]" using assms(1) by simp
  have "?copies = map (capture now) (map callOf (butlast buffer)) @ [?c]"
    by (subst split) simp
  then have shape: "?all = (buffer @ ?S # map (capture now) (map callOf (butlast buffer))) @ [?c, ?E]"
    by simp
  have "set [?c, ?E] \<subseteq> set (sliceLast 199 ?all)"
    unfolding shape by (rule sliceLast_keeps_end) simp_all
  then have "?c \<in> set (sliceLast 199 ?all)" by simp
  moreover have "\<not> isSeparator ?c"
  proof -
    have "last buffer \<in> set buffer" using assms(1) by simp
    with assms(2) have "\<not> isSeparator (last buffer)" by blast
    then show ?thesis unfolding isSeparator_capture .
  qed
  ultimately have "?c \<in> set (logsToReplay 199 ?all)"
    by (simp add: logsToReplay_def del: isSeparator.simps)
  then have nonempty: "logsToReplay 199 ?all \<noteq> []" by auto
  have "set (map callOf (logsToReplay 199 ?all)) \<subseteq> set (map callOf buffer)"
  proof
    fix call
    assume "call \<in> set (map callOf (logsToReplay 199 ?all))"
    then obtain x where x: "x \<in> set (logsToReplay 199 ?all)" "call = callOf x" by auto
    from x(1) have ns: "\<not> isSeparator x"
      by (simp add: logsToReplay_def del: isSeparator.simps)
    from x(1) set_logsToReplay [of 199 ?all] have "x \<in> set ?all" by auto
    then have "x \<in> set buffer \<or> x = ?S \<or> x \<in> set ?copies \<or> x = ?E" by auto
    with ns sepS sepE have "x \<in> set buffer \<or> x \<in> set ?copies" by blast
    then show "call \<in> set (map callOf buffer)"
    proof
      assume "x \<in> set buffer"
      with x(2) show ?thesis by simp
    next
      assume "x \<in> set ?copies"
      then obtain y where "y \<in> set buffer" "x = capture now (callOf y)" by auto
      with x(2) show ?thesis by (simp add: callOf_capture)
    qed
  qed
  with nonempty show ?thesis by blast
qed

text \<open>
  C1, as the claim states it, fails. There is no drained flag: after one early entry,
  attach, destroy and a second attach with no new capture, the new panel shows the entry
  again between the separators. And a captured call whose first argument is a string
  that contains \<open>EARLY LOGS\<close> is filtered out of the replay.
\<close>

theorem second_attach_counterexample:
  "map_sum id shownTexts
     (andThen
        (andThen
           (andThen (consoleCall integerText (Level Log) [Str ''one''] 1 (moduleLoaded []))
                    (initScreenLog exampleProps integerText 10))
           screenLogDestroy)
        (initScreenLog exampleProps integerText 20))
   = Inr [''Screen logger initialized.'', ''---------- EARLY LOGS ----------'',
          ''one'', ''one'', ''---------- END EARLY LOGS ----------'']
   \<and> map_sum id shownTexts
     (andThen
        (andThen (consoleCall integerText (Level Log) [Str ''one''] 1 (moduleLoaded []))
                 (consoleCall integerText (Level Warn) [Str ''no EARLY LOGS yet''] 2))
        (initScreenLog exampleProps integerText 10))
   = Inr [''Screen logger initialized.'', ''---------- EARLY LOGS ----------'',
          ''one'', ''---------- END EARLY LOGS ----------'']"
  by code_simp

text \<open>
  C1, amended. For a logger that attaches over the early wrappers in the Normal state,
  with a buffer of at least one and fewer than two hundred entries, none of them a
  separator line and none with a cyclic argument: the panel shows the greeting and
  then exactly the start separator, the captured entries in capture order, each on
  its own channel, and the end separator. Nothing marks the buffer as drained and
  what it held is still there: a second attach after \<open>destroy\<close>, with no new capture in
  between, again shows the start separator, captured entries and the end separator.
\<close>

theorem attach_replays_early_logs:
  assumes "\<not> isInitialized s" and "console s = earlyConsole"
    and "\<not> paused (throttleConfig s)" and "\<not> throttled (throttleConfig s)"
    and "earlyLogs s \<noteq> []" and "length (earlyLogs s) < 200"
    and "\<forall>e \<in> set (earlyLogs s). \<not> isSeparator e"
    and "\<forall>e \<in> set (earlyLogs s). serializable (objects s) (logArgs e)"
  shows "\<exists>s' els. initScreenLog P numeric now s = Inr s'
           \<and> logElement s' = Some els
           \<and> map Inr els = map (entryFor numeric (objects s))
                ((Log, [Str greeting]) # (Log, [Str startSeparator])
                   # map callOf (earlyLogs s) @ [(Log, [Str endSeparator])])
           \<and> take (length (earlyLogs s)) (earlyLogs s') = earlyLogs s
           \<and> (\<exists>t els' calls.
                andThen (screenLogDestroy s') (initScreenLog P numeric later) = Inr t
                \<and> logElement t = Some els'
                \<and> calls \<noteq> []
                \<and> set calls \<subseteq> set (map callOf (earlyLogs s))
                \<and> map Inr els' = map (entryFor numeric (objects s))
                     ((Log, [Str greeting]) # (Log, [Str startSeparator])
                        # calls @ [(Log, [Str endSeparator])]))"
proof -
  have whole: "logsToReplay 199 (earlyLogs s) = earlyLogs s"
    by (rule logsToReplay_whole [OF assms(6) assms(7)])
  from attach_normal [OF assms(1-5) assms(8), of P numeric now] whole obtain s' els where
    run: "initScreenLog P numeric now s = Inr s'"
    and l: "logElement s' = Some els"
    and m: "map Inr els = map (entryFor numeric (objects s))
                ((Log, [Str greeting]) # (Log, [Str startSeparator])
                   # map callOf (earlyLogs s) @ [(Log, [Str endSeparator])])"
    and e: "earlyLogs s' = earlyLogs s @ map (capture now)
                ((Log, [Str startSeparator]) # map callOf (earlyLogs s)
                   @ [(Log, [Str endSeparator])])"
    and api: "screenLog s' = Some \<lparr>methods = decorate earlyConsole, savedConsole = earlyConsole\<rparr>"
    and cfg: "throttleConfig s' = throttleConfig s" and obj: "objects s' = objects s"
    by auto
  let ?d = "destroy earlyConsole s'"
  have d: "screenLogDestroy s' = Inr ?d" using api by (simp add: screenLogDestroy_def)
  have d1: "\<not> isInitialized ?d" and d2: "console ?d = earlyConsole"
    and d3: "\<not> paused (throttleConfig ?d)" and d4: "\<not> throttled (throttleConfig ?d)"
    and d5: "earlyLogs ?d \<noteq> []"
    using assms(3) assms(4) cfg e by (simp_all add: destroy_def)
  have d6: "\<forall>x \<in> set (earlyLogs ?d). serializable (objects ?d) (logArgs x)"
    using serializable_after_replay [OF assms(8), of now 199] e obj whole
    by (simp add: destroy_def)
  from attach_normal [OF d1 d2 d3 d4 d5 d6, of P numeric later] obtain t els' where
    run2: "initScreenLog P numeric later ?d = Inr t"
    and l2: "logElement t = Some els'"
    and m2: "map Inr els' = map (entryFor numeric (objects ?d))
                ((Log, [Str greeting]) # (Log, [Str startSeparator])
                   # map callOf (logsToReplay 199 (earlyLogs ?d)) @ [(Log, [Str endSeparator])])"
    by blast
  let ?calls = "map callOf (logsToReplay 199 (earlyLogs s'))"
  from second_replay_calls [OF assms(5) assms(7), of now] e have
    c1: "?calls \<noteq> []" and c2: "set ?calls \<subseteq> set (map callOf (earlyLogs s))"
    by simp_all
  have r2: "andThen (screenLogDestroy s') (initScreenLog P numeric later) = Inr t"
    using d run2 by simp
  have m3: "map Inr els' = map (entryFor numeric (objects s))
                ((Log, [Str greeting]) # (Log, [Str startSeparator])
                   # ?calls @ [(Log, [Str endSeparator])])"
    using m2 obj by (simp add: destroy_def)
  have keep: "take (length (earlyLogs s)) (earlyLogs s') = earlyLogs s"
    using e by simp
  from r2 l2 c1 c2 m3 have
    "\<exists>t els' calls.
        andThen (screenLogDestroy s') (initScreenLog P numeric later) = Inr t
        \<and> logElement t = Some els'
        \<and> calls \<noteq> []
        \<and> set calls \<subseteq> set (map callOf (earlyLogs s))
        \<and> map Inr els' = map (entryFor numeric (objects s))
             ((Log, [Str greeting]) # (Log, [Str startSeparator])
                # calls @ [(Log, [Str endSeparator])])"
    by blast
  with run l m keep show ?thesis by blast
qed

theorem attach_replays_early_logs_witness:
  "\<not> isInitialized threeCaptured \<and> console threeCaptured = earlyConsole
   \<and> earlyLogs threeCaptured \<noteq> [] \<and> length (earlyLogs threeCaptured) < 200
   \<and> (\<exists>s'. initScreenLog exampleProps integerText 10 threeCaptured = Inr s'
        \<and> shownTexts s' =
            [''Screen logger initialized.'', ''---------- EARLY LOGS ----------'',
             ''one'', ''two'', ''three'', ''---------- END EARLY LOGS ----------'']
        \<and> shownColors s' =
            [logColor, logColor, infoColor, warnColor, errorColor, logColor])"
proof -
  have h: "\<not> isInitialized threeCaptured" "console threeCaptured = earlyConsole"
    "\<not> paused (throttleConfig threeCaptured)" "\<not> throttled (throttleConfig threeCaptured)"
    "earlyLogs threeCaptured \<noteq> []" "length (earlyLogs threeCaptured) < 200"
    "\<forall>e \<in> set (earlyLogs threeCaptured). \<not> isSeparator e"
    "\<forall>e \<in> set (earlyLogs threeCaptured). serializable (objects threeCaptured) (logArgs e)"
    by (simp_all add: threeCaptured_def moduleLoaded_def serializable_def)
  from attach_replays_early_logs [OF h, of exampleProps integerText 10 20] obtain s' where
    run: "initScreenLog exampleProps integerText 10 threeCaptured = Inr s'"
    by blast
  have "map_sum id shownTexts (initScreenLog exampleProps integerText 10 threeCaptured) =
          Inr [''Screen logger initialized.'', ''---------- EARLY LOGS ----------'',
               ''one'', ''two'', ''three'', ''---------- END EARLY LOGS ----------'']"
    by code_simp
  moreover have "map_sum id shownColors (initScreenLog exampleProps integerText 10 threeCaptured) =
          Inr [logColor, logColor, infoColor, warnColor, errorColor, logColor]"
    by code_simp
  ultimately show ?thesis using run h by simp
qed

end
